theory Spec2Isabelle
  imports Main "HOL-Library.Sublist"
begin

chapter \<open>Zenchi Keep: notification scheduling, settings and offline cache\<close>

text \<open>
  A shallow embedding of the TypeScript and JavaScript sources of the bookmark-review
  application: the page-side notification hook, the two background workers, the
  settings storage, the HTTP routes for settings, schedule and bookmarks, and the
  offline-cache worker.

  Conventions of the model.
  \<^item> JavaScript strings are \<^typ>\<open>string\<close>; the inputs the properties are about
    (clock times, keys, URLs, decimal numerals) are ASCII.
  \<^item> JavaScript numbers that the code uses as whole numbers (timestamps in
    milliseconds, minutes of the day, timer handles) are \<^typ>\<open>int\<close> or
    \<^typ>\<open>nat\<close>; their values stay within the range of \<open>Date\<close>, far below
    \<open>2^53\<close>, where the arithmetic of the two agrees. The review counters, which are
    read from storage, are added as \<open>Number\<close> values, with rounding.
  \<^item> A \<open>Date\<close> is its time value, an instant in milliseconds since the epoch (UTC)
    or \<open>NaN\<close>; local clock readings go through the offset of the local time zone,
    which may change at transitions (daylight saving).
  \<^item> Platform services (network, timers, local storage, cache storage, the list of
    window clients, the clock) are explicit arguments and explicit state.
\<close>

section \<open>JavaScript values\<close>

subsection \<open>Strings and numerals\<close>

definition startsWith :: "string \<Rightarrow> string \<Rightarrow> bool" where
  "startsWith s p = prefix p s"

definition str_includes :: "string \<Rightarrow> string \<Rightarrow> bool" where
  "str_includes s p = sublist p s"

text \<open>\<open>String.prototype.split\<close> with a one-character separator.\<close>

fun split :: "char \<Rightarrow> string \<Rightarrow> string list" where
  "split sep [] = [[]]"
| "split sep (c # cs) =
     (if c = sep then [] # split sep cs
      else (case split sep cs of
              [] \<Rightarrow> [[c]]
            | f # fs \<Rightarrow> (c # f) # fs))"

definition is_space :: "char \<Rightarrow> bool" where
  "is_space c = (c \<in> set [CHR 0x09, CHR 0x0A, CHR 0x0B, CHR 0x0C, CHR 0x0D, CHR 0x20])"

definition digit_value :: "char \<Rightarrow> nat option" where
  "digit_value c =
     (let k = (of_char c :: nat) in
      if 48 \<le> k \<and> k \<le> 57 then Some (k - 48)
      else if 97 \<le> k \<and> k \<le> 122 then Some (k - 87)
      else if 65 \<le> k \<and> k \<le> 90 then Some (k - 55)
      else None)"

definition is_digit_in :: "nat \<Rightarrow> char \<Rightarrow> bool" where
  "is_digit_in R c = (case digit_value c of None \<Rightarrow> False | Some d \<Rightarrow> d < R)"

definition digits_value :: "nat \<Rightarrow> string \<Rightarrow> nat" where
  "digits_value R ds =
     foldl (\<lambda>acc c. acc * R + (case digit_value c of None \<Rightarrow> 0 | Some d \<Rightarrow> d)) 0 ds"

text \<open>
  \<open>Number.prototype.toString\<close> on an integer (the form a template literal and
  \<open>String(n)\<close> give below \<open>10^21\<close>).
\<close>

fun Number_toString_nat :: "nat \<Rightarrow> string" where
  "Number_toString_nat n =
     (if n < 10 then [char_of (48 + n)]
      else Number_toString_nat (n div 10) @ [char_of (48 + n mod 10)])"

declare Number_toString_nat.simps [simp del]

definition Number_toString :: "int \<Rightarrow> string" where
  "Number_toString n =
     (if n < 0 then CHR ''-'' # Number_toString_nat (nat (- n)) else Number_toString_nat (nat n))"

text \<open>
  \<open>parseInt(input)\<close> with no radix: leading white space is skipped, a sign is read,
  a prefix \<open>0x\<close> or \<open>0X\<close> selects radix 16, and the longest run of digits of the
  radix is the value; no digit at all is \<open>NaN\<close>, here \<open>None\<close>.
\<close>

definition parseInt :: "string \<Rightarrow> int option" where
  "parseInt input =
     (let s = dropWhile is_space input;
          neg = (s \<noteq> [] \<and> hd s = CHR ''-'');
          s1 = (if s \<noteq> [] \<and> (hd s = CHR ''+'' \<or> hd s = CHR ''-'') then tl s else s);
          hex = (prefix ''0x'' s1 \<or> prefix ''0X'' s1);
          R = (if hex then 16 else 10);
          s2 = (if hex then drop 2 s1 else s1);
          z = takeWhile (is_digit_in R) s2
      in if z = [] then None
         else Some ((if neg then - 1 else 1) * int (digits_value R z)))"

text \<open>
  \<open>Number(s)\<close> on the strings that \<open>time.split(":")\<close> yields: white space is
  trimmed, the empty string is \<open>0\<close>, a run of decimal digits is its value. \<open>None\<close>
  stands for \<open>NaN\<close> and for the other numeric literals (sign, fraction, exponent,
  radix prefix), none of which a field of a clock time \<open>HH:MM\<close> is.
\<close>

definition Number_of_string :: "string \<Rightarrow> int option" where
  "Number_of_string input =
     (let s = rev (dropWhile is_space (rev (dropWhile is_space input)))
      in if s = [] then Some 0
         else if list_all (is_digit_in 10) s then Some (int (digits_value 10 s))
         else None)"

subsection \<open>Number arithmetic\<close>





subsection \<open>JSON values\<close>

text \<open>
  \<open>JNumber n\<close> is the JSON number of whole value \<open>n\<close>; numbers with a fractional
  part do not occur in the values the properties are about.
\<close>

datatype json =
    JNull
  | JBool bool
  | JNumber int
  | JString string
  | JArray "json list"
  | JObject "(string \<times> json) list"

text \<open>Property read on a parsed JSON object: a repeated key keeps its last value.\<close>

definition fields_get :: "(string \<times> json) list \<Rightarrow> string \<Rightarrow> json option" where
  "fields_get fs k = map_of (rev fs) k"

text \<open>
  \<open>v.k\<close> for a value other than \<open>null\<close> and a key that is no built-in property:
  \<open>None\<close> is \<open>undefined\<close>.
\<close>

definition get_prop :: "json \<Rightarrow> string \<Rightarrow> json option" where
  "get_prop v k = (case v of JObject fs \<Rightarrow> fields_get fs k | _ \<Rightarrow> None)"

definition truthy :: "json \<Rightarrow> bool" where
  "truthy v =
     (case v of
        JNull \<Rightarrow> False
      | JBool b \<Rightarrow> b
      | JNumber n \<Rightarrow> n \<noteq> 0
      | JString s \<Rightarrow> s \<noteq> []
      | JArray _ \<Rightarrow> True
      | JObject _ \<Rightarrow> True)"

text \<open>
  The type tests of the code on a property that may be \<open>undefined\<close>:
  \<open>typeof v === 'boolean'\<close>, \<open>Array.isArray(v)\<close>, \<open>typeof v === 'string'\<close>,
  \<open>typeof v === 'number'\<close>, each giving the value when the test holds.
\<close>

definition as_boolean :: "json option \<Rightarrow> bool option" where
  "as_boolean v = (case v of Some (JBool b) \<Rightarrow> Some b | _ \<Rightarrow> None)"

definition as_array :: "json option \<Rightarrow> json list option" where
  "as_array v = (case v of Some (JArray xs) \<Rightarrow> Some xs | _ \<Rightarrow> None)"

definition as_string :: "json option \<Rightarrow> string option" where
  "as_string v = (case v of Some (JString s) \<Rightarrow> Some s | _ \<Rightarrow> None)"


fun join :: "string \<Rightarrow> string list \<Rightarrow> string" where
  "join sep [] = []"
| "join sep [x] = x"
| "join sep (x # y # ys) = x @ sep @ join sep (y # ys)"

text \<open>
  The abstract operation \<open>ToString\<close>: an array is its elements joined by commas,
  with \<open>null\<close> elements empty.
\<close>

fun ToString :: "json \<Rightarrow> string" where
  "ToString JNull = ''null''"
| "ToString (JBool b) = (if b then ''true'' else ''false'')"
| "ToString (JNumber n) = Number_toString n"
| "ToString (JString s) = s"
| "ToString (JArray xs) = join '','' (map (\<lambda>x. if x = JNull then [] else ToString x) xs)"
| "ToString (JObject fs) = ''[object Object]''"

section \<open>The bookmarks route: page size\<close>

text \<open>
  \<open>src/app/api/bookmarks/route.ts\<close>, \<open>GET\<close>:
  \<^verbatim>\<open>const pageSizeParam = searchParams.get('pageSize') || '10';\<close>
  \<^verbatim>\<open>const pageSize = Math.min(Math.max(parseInt(pageSizeParam) || 10, 1), 100);\<close>
  The argument is the value of \<open>searchParams.get('pageSize')\<close>, \<open>None\<close> for \<open>null\<close>.
\<close>

definition GET_pageSize :: "string option \<Rightarrow> int" where
  "GET_pageSize param =
     (let pageSizeParam = (case param of None \<Rightarrow> ''10'' | Some s \<Rightarrow> if s = [] then ''10'' else s);
          parsed = (case parseInt pageSizeParam of
                      None \<Rightarrow> 10
                    | Some v \<Rightarrow> if v = 0 then 10 else v)
      in min (max parsed 1) 100)"

text \<open>The clamp the specification describes, for comparison.\<close>

definition clamp_1_100 :: "int \<Rightarrow> int" where
  "clamp_1_100 n = min (max n 1) 100"

section \<open>Dates and clock times\<close>

type_synonym timestamp = int

definition msPerMinute :: int where "msPerMinute = 60000"
definition msPerHour :: int where "msPerHour = 3600000"
definition msPerDay :: int where "msPerDay = 86400000"

text \<open>
  The local time zone of the machine: the offset of local time from UTC (in
  milliseconds) in effect before the first transition, and the transitions in the
  order of their instants, each with the offset in effect from that instant on
  (a daylight-saving zone alternates between two offsets).
\<close>

record time_zone =
  standard :: int
  transitions :: "(timestamp \<times> int) list"

fun offset_at :: "int \<Rightarrow> (timestamp \<times> int) list \<Rightarrow> timestamp \<Rightarrow> int" where
  "offset_at off [] t = off"
| "offset_at off ((T, off') # rest) t = (if t < T then off else offset_at off' rest t)"

text \<open>The abstract operation \<open>LocalTime(t)\<close> of the language: UTC to local time.\<close>

definition LocalTime :: "time_zone \<Rightarrow> timestamp \<Rightarrow> int" where
  "LocalTime tz t = t + offset_at (standard tz) (transitions tz) t"

text \<open>
  The abstract operation \<open>UTC(t)\<close>: local time to UTC. A local time that a
  transition repeats, or that a transition skips, is read with the offset in effect
  before that transition: a repeated time is its first instant, and a skipped time
  \<open>02:30\<close> of a night when the clocks go from \<open>02:00\<close> to \<open>03:00\<close> is the instant
  whose clock reads \<open>03:30\<close>.
\<close>

fun UTC_from :: "int \<Rightarrow> (timestamp \<times> int) list \<Rightarrow> int \<Rightarrow> timestamp" where
  "UTC_from off [] lt = lt - off"
| "UTC_from off ((T, off') # rest) lt =
     (if lt - off < T \<or> lt - off' < T then lt - off else UTC_from off' rest lt)"

definition UTC :: "time_zone \<Rightarrow> int \<Rightarrow> timestamp" where
  "UTC tz lt = UTC_from (standard tz) (transitions tz) lt"

text \<open>A zone of one offset, for the examples.\<close>

definition fixed_zone :: "int \<Rightarrow> time_zone" where
  "fixed_zone off = \<lparr>standard = off, transitions = []\<rparr>"

text \<open>
  Central European time in 2026, a daylight-saving zone: one hour ahead of UTC, two
  hours from 29 March 01:00 UTC (the clocks go from 02:00 to 03:00) to 25 October
  01:00 UTC.
\<close>

definition Europe_Berlin_2026 :: time_zone where
  "Europe_Berlin_2026 =
     \<lparr>standard = 3600000,
      transitions = [(1774746000000, 7200000), (1792890000000, 3600000)]\<rparr>"

text \<open>
  \<open>TimeClip\<close>: a \<open>Date\<close> holds an instant within \<open>8.64e15\<close> milliseconds of the
  epoch, or \<open>NaN\<close> (an invalid date), here \<open>None\<close>.
\<close>

definition TimeClip :: "int \<Rightarrow> timestamp option" where
  "TimeClip t = (if \<bar>t\<bar> \<le> 8640000000000000 then Some t else None)"

definition getHours :: "time_zone \<Rightarrow> timestamp \<Rightarrow> int" where
  "getHours tz t = (LocalTime tz t mod msPerDay) div msPerHour"

definition getMinutes :: "time_zone \<Rightarrow> timestamp \<Rightarrow> int" where
  "getMinutes tz t = ((LocalTime tz t mod msPerDay) mod msPerHour) div msPerMinute"

text \<open>
  \<open>d.setHours(h, m, 0, 0)\<close> on a valid date: the local calendar day of \<open>d\<close> at
  \<open>h:m:00.000\<close> local time, converted back to UTC; hours and minutes out of range
  carry over, as the arithmetic does.
\<close>

definition setHours :: "time_zone \<Rightarrow> timestamp \<Rightarrow> int \<Rightarrow> int \<Rightarrow> timestamp option" where
  "setHours tz t h m =
     TimeClip (UTC tz ((LocalTime tz t div msPerDay) * msPerDay + h * msPerHour + m * msPerMinute))"

text \<open>
  \<open>d.setDate(d.getDate() + 1)\<close> on a valid date: the same local clock time on the
  following local calendar day, converted back to UTC.
\<close>

definition addDay :: "time_zone \<Rightarrow> timestamp \<Rightarrow> timestamp option" where
  "addDay tz t = TimeClip (UTC tz (LocalTime tz t + msPerDay))"

text \<open>
  \<^verbatim>\<open>const [hours, minutes] = time.split(":").map(Number);\<close>
  A missing field is \<open>undefined\<close>, which like \<open>NaN\<close> makes the date invalid.
\<close>

definition parse_time :: "string \<Rightarrow> (int \<times> int) option" where
  "parse_time time =
     (case map Number_of_string (split CHR '':'' time) of
        Some hours # Some minutes # _ \<Rightarrow> Some (hours, minutes)
      | _ \<Rightarrow> None)"

text \<open>
  The pattern \<open>/^([0-1][0-9]|2[0-3]):[0-5][0-9]$/\<close> on a string (settings component
  and settings route).
\<close>

definition char_between :: "char \<Rightarrow> char \<Rightarrow> char \<Rightarrow> bool" where
  "char_between lo hi c = ((of_char lo :: nat) \<le> of_char c \<and> (of_char c :: nat) \<le> of_char hi)"

definition isValidTime :: "string \<Rightarrow> bool" where
  "isValidTime s =
     (case s of
        [a, b, c, d, e] \<Rightarrow>
          ((char_between CHR ''0'' CHR ''1'' a \<and> char_between CHR ''0'' CHR ''9'' b)
            \<or> (a = CHR ''2'' \<and> char_between CHR ''0'' CHR ''3'' b))
          \<and> c = CHR '':''
          \<and> char_between CHR ''0'' CHR ''5'' d
          \<and> char_between CHR ''0'' CHR ''9'' e
      | _ \<Rightarrow> False)"

section \<open>Next occurrence of a schedule entry\<close>

text \<open>
  \<open>src/lib/hooks/useNotifications.ts\<close>, \<open>scheduleNotificationForTime\<close>, the date part:
  \<^verbatim>\<open>scheduledTime.setHours(hours, minutes, 0, 0);\<close>
  \<^verbatim>\<open>if (scheduledTime <= now) { scheduledTime.setDate(scheduledTime.getDate() + 1); }\<close>
  \<open>None\<close> is the invalid date of an entry that does not parse or of an instant out
  of the range of \<open>Date\<close>; the comparison with an invalid date is false.
\<close>

definition scheduledTime_for :: "time_zone \<Rightarrow> timestamp \<Rightarrow> string \<Rightarrow> timestamp option" where
  "scheduledTime_for tz now time =
     (case parse_time time of
        None \<Rightarrow> None
      | Some (hours, minutes) \<Rightarrow>
          (case setHours tz now hours minutes of
             None \<Rightarrow> None
           | Some scheduledTime \<Rightarrow>
               if scheduledTime \<le> now then addDay tz scheduledTime else Some scheduledTime))"

text \<open>
  \<open>calculateNextNotificationTime\<close> of the schedule route and of the worker; the two
  bodies differ in the last step only, \<open>toISOString()\<close> in the route and
  \<open>getTime()\<close> in the worker. \<open>Null\<close> is the \<open>null\<close> of an empty schedule and
  \<open>Invalid_Date\<close> a date out of range (\<open>toISOString\<close> raises a \<open>RangeError\<close> on it,
  \<open>getTime\<close> gives \<open>NaN\<close>; \<open>setHours\<close> leaves an invalid date invalid).
  \<open>NaN_entry\<close> stands for a schedule with an entry that gives \<open>NaN\<close>: what \<open>sort\<close>
  and the comparisons make of it depends on the engine, and the model does not follow
  it further.
\<close>

datatype next_time = Null | At timestamp | Invalid_Date | NaN_entry

definition minutes_since_midnight :: "string \<Rightarrow> int option" where
  "minutes_since_midnight time =
     (case parse_time time of
        None \<Rightarrow> None
      | Some (hours, minutes) \<Rightarrow> Some (hours * 60 + minutes))"

fun those_minutes :: "string list \<Rightarrow> int list option" where
  "those_minutes [] = Some []"
| "those_minutes (t # ts) =
     (case minutes_since_midnight t of
        None \<Rightarrow> None
      | Some m \<Rightarrow> (case those_minutes ts of None \<Rightarrow> None | Some ms \<Rightarrow> Some (m # ms)))"

definition date_result :: "timestamp option \<Rightarrow> next_time" where
  "date_result d = (case d of None \<Rightarrow> Invalid_Date | Some t \<Rightarrow> At t)"

definition calculateNextNotificationTime :: "time_zone \<Rightarrow> timestamp \<Rightarrow> string list \<Rightarrow> next_time" where
  "calculateNextNotificationTime tz now schedule =
     (if schedule = [] then Null
      else (case those_minutes schedule of
              None \<Rightarrow> NaN_entry
            | Some ms \<Rightarrow>
                (let currentTime = getHours tz now * 60 + getMinutes tz now;
                     scheduleMinutes = sort ms
                 in (case find (\<lambda>scheduledMinutes. scheduledMinutes > currentTime) scheduleMinutes of
                       Some scheduledMinutes \<Rightarrow>
                         date_result
                           (setHours tz now (scheduledMinutes div 60) (scheduledMinutes mod 60))
                     | None \<Rightarrow>
                         (case scheduleMinutes of
                            [] \<Rightarrow> NaN_entry
                          | firstTimeTomorrow # _ \<Rightarrow>
                              (case addDay tz now of
                                 None \<Rightarrow> Invalid_Date
                               | Some nextNotification \<Rightarrow>
                                   date_result
                                     (setHours tz nextNotification (firstTimeTomorrow div 60)
                                        (firstTimeTomorrow mod 60))))))))"


text \<open>
  The closed form, on a wall clock with days of \<open>86400000\<close> milliseconds, of the
  next occurrence of the minute \<open>x\<close> of the day after the reading \<open>now\<close>; it is
  used to prove the properties of the two computations above.
\<close>

definition next_at :: "int \<Rightarrow> int \<Rightarrow> int" where
  "next_at now x =
     (let st = (now div 86400000) * 86400000 + x * 60000
      in if st \<le> now then st + 86400000 else st)"

section \<open>Settings and review state in local storage\<close>

text \<open>
  \<open>src/lib/utils/storage.ts\<close>. The structure check on a stored value looks at the
  types of the fields only, so the schedule and the id lists are arrays of arbitrary
  JSON values. \<open>sessionStats\<close> is the nested object of the source.
\<close>

record NotificationSettings =
  enabled :: bool
  schedule :: "json list"
  lastNotificationDate :: string




definition NOTIFICATION_SETTINGS_KEY :: string where
  "NOTIFICATION_SETTINGS_KEY = ''zenchi-keep-notification-settings''"

definition default_settings :: NotificationSettings where
  "default_settings = \<lparr>enabled = False, schedule = [], lastNotificationDate = []\<rparr>"


text \<open>
  An item of \<open>localStorage\<close>. \<open>JsonText v\<close> is the text \<open>JSON.stringify(v)\<close>, which
  \<open>JSON.parse\<close> reads back as \<open>v\<close>; \<open>OtherText s\<close> is a text that \<open>JSON.parse\<close>
  rejects with a \<open>SyntaxError\<close> (the empty text, which the code treats as absent, is
  one of them).
\<close>

datatype stored_item = JsonText json | OtherText string

text \<open>
  The context of a call: \<open>hasWindow\<close> is \<open>typeof window !== "undefined"\<close>;
  \<open>getItemThrows\<close> and \<open>setItemThrows\<close> say whether the storage raises on a read or
  on a write (blocked or full storage).
\<close>

record storage_env =
  hasWindow :: bool
  getItemThrows :: bool
  setItemThrows :: bool
  items :: "string \<rightharpoonup> stored_item"

text \<open>The value \<open>JSON.stringify\<close> serialises for a settings object and a review state.\<close>

definition settings_to_json :: "NotificationSettings \<Rightarrow> json" where
  "settings_to_json s =
     JObject [(''enabled'', JBool (enabled s)),
              (''schedule'', JArray (schedule s)),
              (''lastNotificationDate'', JString (lastNotificationDate s))]"


text \<open>
  The structure checks of the two readers; \<open>None\<close> is "invalid structure" (and the
  \<open>TypeError\<close> of a parsed \<open>null\<close>, which the reader catches with the same result).
\<close>

definition settings_of_json :: "json \<Rightarrow> NotificationSettings option" where
  "settings_of_json parsed =
     (case (as_boolean (get_prop parsed ''enabled''), as_array (get_prop parsed ''schedule''),
            as_string (get_prop parsed ''lastNotificationDate'')) of
        (Some e, Some xs, Some d) \<Rightarrow>
          Some \<lparr>enabled = e, schedule = xs, lastNotificationDate = d\<rparr>
      | _ \<Rightarrow> None)"





definition getNotificationSettings :: "storage_env \<Rightarrow> NotificationSettings" where
  "getNotificationSettings env =
     (if \<not> hasWindow env then default_settings
      else if getItemThrows env then default_settings
      else (case items env NOTIFICATION_SETTINGS_KEY of
              None \<Rightarrow> default_settings
            | Some (OtherText _) \<Rightarrow> default_settings
            | Some (JsonText parsed) \<Rightarrow>
                (case settings_of_json parsed of
                   Some s \<Rightarrow> s
                 | None \<Rightarrow> default_settings)))"

definition setNotificationSettings :: "storage_env \<Rightarrow> NotificationSettings \<Rightarrow> storage_env" where
  "setNotificationSettings env s =
     (if \<not> hasWindow env then env
      else if setItemThrows env then env
      else env\<lparr>items := (items env)(NOTIFICATION_SETTINGS_KEY \<mapsto> JsonText (settings_to_json s))\<rparr>)"

text \<open>
  A context able to persist: a browser context whose storage accepts reads and writes.
\<close>

definition persistence_capable :: "storage_env \<Rightarrow> bool" where
  "persistence_capable env = (hasWindow env \<and> \<not> getItemThrows env \<and> \<not> setItemThrows env)"

section \<open>The flashcard review hook\<close>

text \<open>
  \<open>useFlashcards\<close> (second part of \<open>src/lib/hooks/useNotifications.ts\<close>):
  \<open>markAsReviewed\<close> and \<open>skipBookmark\<close>. \<open>today\<close> is
  \<open>new Date().toISOString().split("T")[0]\<close>, the current date. The counters are
  \<open>Number\<close> values and \<open>+ 1\<close> is their addition. The hook's \<open>loading\<close> and
  \<open>error\<close> flags, which neither operation touches, are left out of the state.
\<close>

record Bookmark =
  bookmark_id :: string
  name :: string
  link :: string
  bookmark_type :: string
  bookmark_status :: string




section \<open>The settings and schedule routes\<close>

text \<open>
  A request as the handlers read it: the values of
  \<open>request.headers.get('authorization')\<close> and \<open>request.headers.get('x-api-key')\<close>
  (\<open>None\<close> for \<open>null\<close>) and the outcome of \<open>request.json()\<close> (\<open>None\<close> when the body
  is not JSON and the call raises a \<open>SyntaxError\<close>). The first argument of the
  handlers is \<open>process.env.API_KEY\<close>, \<open>None\<close> when unset.
\<close>

record request =
  authorization :: "string option"
  x_api_key :: "string option"
  json_body :: "json option"

datatype response_body =
    ErrorBody string
  | SettingsBody NotificationSettings
  | SavedBody NotificationSettings
  | ScheduleBody "timestamp option" "Bookmark option"

record response =
  status :: nat
  payload :: response_body

type_synonym settingsStore = "string \<rightharpoonup> NotificationSettings"

text \<open>\<open>expectedApiKey && apiKey === expectedApiKey\<close>\<close>

definition matches_expected :: "string option \<Rightarrow> string \<Rightarrow> bool" where
  "matches_expected API_KEY apiKey =
     (case API_KEY of
        None \<Rightarrow> False
      | Some expectedApiKey \<Rightarrow> expectedApiKey \<noteq> [] \<and> apiKey = expectedApiKey)"

text \<open>\<open>validateApiKey\<close> of the settings route (\<open>src/unnamed/part_006\<close>).\<close>

definition validateApiKey_settings :: "string option \<Rightarrow> request \<Rightarrow> bool" where
  "validateApiKey_settings API_KEY req =
     (if (case authorization req of
            None \<Rightarrow> False
          | Some authHeader \<Rightarrow>
              startsWith authHeader ''Bearer '' \<and> matches_expected API_KEY (drop 7 authHeader))
      then True
      else if (case x_api_key req of
                 None \<Rightarrow> False
               | Some apiKeyHeader \<Rightarrow>
                   apiKeyHeader \<noteq> [] \<and> matches_expected API_KEY apiKeyHeader)
      then True
      else False)"

text \<open>
  \<open>validateApiKey\<close> of the schedule route
  (\<open>src/app/api/notifications/schedule/route.ts\<close>), which starts with
  \<^verbatim>\<open>if (!process.env.API_KEY) { return true; }\<close>
\<close>

definition validateApiKey_schedule :: "string option \<Rightarrow> request \<Rightarrow> bool" where
  "validateApiKey_schedule API_KEY req =
     (if (case API_KEY of None \<Rightarrow> True | Some k \<Rightarrow> k = []) then True
      else if (case authorization req of
            None \<Rightarrow> False
          | Some authHeader \<Rightarrow>
              startsWith authHeader ''Bearer '' \<and> matches_expected API_KEY (drop 7 authHeader))
      then True
      else if (case x_api_key req of
                 None \<Rightarrow> False
               | Some apiKeyHeader \<Rightarrow>
                   apiKeyHeader \<noteq> [] \<and> matches_expected API_KEY apiKeyHeader)
      then True
      else False)"

definition getUserId :: "request \<Rightarrow> string" where
  "getUserId req = ''default-user''"

definition unauthorized :: response where
  "unauthorized = \<lparr>status = 401, payload = ErrorBody ''Unauthorized: Invalid API key''\<rparr>"

text \<open>\<open>GET /api/settings/notifications\<close>\<close>

definition GET_settings :: "string option \<Rightarrow> request \<Rightarrow> settingsStore \<Rightarrow> response" where
  "GET_settings API_KEY req store =
     (if \<not> validateApiKey_settings API_KEY req then unauthorized
      else (case store (getUserId req) of
              None \<Rightarrow> \<lparr>status = 200, payload = SettingsBody default_settings\<rparr>
            | Some settings \<Rightarrow> \<lparr>status = 200, payload = SettingsBody settings\<rparr>))"

text \<open>
  \<open>timeRegex.test(time)\<close> on an element of the parsed body: \<open>RegExp.prototype.test\<close>
  applies \<open>ToString\<close> to its argument before matching.
\<close>

definition timeRegex_test :: "json \<Rightarrow> bool" where
  "timeRegex_test time = isValidTime (ToString time)"

definition invalid_time_message :: string where
  "invalid_time_message =
     ''Invalid time format in schedule. Use HH:MM format (e.g., '' @ [CHR 0x22] @ ''09:00''
       @ [CHR 0x22] @ '')''"

text \<open>
  \<open>POST /api/settings/notifications\<close>: the response and the store afterwards. A body
  that is not JSON raises a \<open>SyntaxError\<close>, and reading a field of a parsed \<open>null\<close> a
  \<open>TypeError\<close>; the handler answers both with 400.
\<close>

definition POST_settings ::
  "string option \<Rightarrow> request \<Rightarrow> settingsStore \<Rightarrow> response \<times> settingsStore" where
  "POST_settings API_KEY req store =
     (if \<not> validateApiKey_settings API_KEY req then (unauthorized, store)
      else (case json_body req of
              None \<Rightarrow> (\<lparr>status = 400, payload = ErrorBody ''Invalid JSON in request body''\<rparr>, store)
            | Some body \<Rightarrow>
                if body = JNull then
                  (\<lparr>status = 400, payload = ErrorBody ''Invalid JSON in request body''\<rparr>, store)
                else
                  (case (as_boolean (get_prop body ''enabled''), as_array (get_prop body ''schedule''),
                         as_string (get_prop body ''lastNotificationDate'')) of
                     (Some e, Some xs, Some d) \<Rightarrow>
                       (if \<not> list_all timeRegex_test xs then
                          (\<lparr>status = 400, payload = ErrorBody invalid_time_message\<rparr>, store)
                        else
                          (let settings = \<lparr>enabled = e, schedule = xs, lastNotificationDate = d\<rparr>
                           in (\<lparr>status = 200, payload = SavedBody settings\<rparr>,
                               store(getUserId req \<mapsto> settings))))
                   | _ \<Rightarrow>
                       (\<lparr>status = 400, payload = ErrorBody ''Invalid notification settings format''\<rparr>,
                        store))))"

text \<open>
  \<open>GET /api/notifications/schedule\<close>. \<open>randomBookmarks\<close> is the outcome of
  \<open>getRandomBookmarks(1)\<close>, \<open>None\<close> when it raises. A stored schedule with an element
  that is not a string raises a \<open>TypeError\<close> inside \<open>calculateNextNotificationTime\<close>
  (the element has no \<open>split\<close>), so does \<open>toISOString\<close> on an invalid date, and
  the handler answers 500. \<open>tz\<close> and \<open>now\<close> are the time zone and the clock of the
  server. The result is \<open>None\<close> where the model does not determine the response
  (\<^const>\<open>NaN_entry\<close>).
\<close>

fun string_elements :: "json list \<Rightarrow> string list option" where
  "string_elements [] = Some []"
| "string_elements (JString s # xs) =
     (case string_elements xs of None \<Rightarrow> None | Some ss \<Rightarrow> Some (s # ss))"
| "string_elements (_ # xs) = None"

definition schedule_failed :: response where
  "schedule_failed = \<lparr>status = 500, payload = ErrorBody ''Failed to get notification schedule''\<rparr>"

definition preview_of :: "Bookmark list \<Rightarrow> Bookmark option" where
  "preview_of randomBookmarks = (case randomBookmarks of [] \<Rightarrow> None | b # _ \<Rightarrow> Some b)"

definition GET_schedule ::
  "string option \<Rightarrow> time_zone \<Rightarrow> timestamp \<Rightarrow> Bookmark list option \<Rightarrow> request
     \<Rightarrow> settingsStore \<Rightarrow> response option" where
  "GET_schedule API_KEY tz now randomBookmarks req store =
     (if \<not> validateApiKey_schedule API_KEY req then Some unauthorized
      else (case randomBookmarks of
              None \<Rightarrow> Some schedule_failed
            | Some bs \<Rightarrow>
                (case store (getUserId req) of
                   None \<Rightarrow> Some \<lparr>status = 200, payload = ScheduleBody None (preview_of bs)\<rparr>
                 | Some settings \<Rightarrow>
                     (if \<not> (enabled settings \<and> schedule settings \<noteq> []) then
                        Some \<lparr>status = 200, payload = ScheduleBody None (preview_of bs)\<rparr>
                      else (case string_elements (schedule settings) of
                              None \<Rightarrow> Some schedule_failed
                            | Some entries \<Rightarrow>
                                (case calculateNextNotificationTime tz now entries of
                                   At t \<Rightarrow>
                                     Some \<lparr>status = 200,
                                           payload = ScheduleBody (Some t) (preview_of bs)\<rparr>
                                 | Null \<Rightarrow>
                                     Some \<lparr>status = 200,
                                           payload = ScheduleBody None (preview_of bs)\<rparr>
                                 | Invalid_Date \<Rightarrow> Some schedule_failed
                                 | NaN_entry \<Rightarrow> None))))))"

section \<open>Timers and insertion-ordered maps\<close>

text \<open>
  \<open>Map.prototype.set\<close> on a \<open>Map\<close> kept as the list of its entries in insertion
  order: an existing key keeps its place and takes the new value, a new key goes last.
\<close>

fun Map_set :: "('k \<times> 'v) list \<Rightarrow> 'k \<Rightarrow> 'v \<Rightarrow> ('k \<times> 'v) list" where
  "Map_set [] k v = [(k, v)]"
| "Map_set (p # ps) k v = (if fst p = k then (k, v) # ps else p # Map_set ps k v)"

definition Map_delete :: "('k \<times> 'v) list \<Rightarrow> 'k \<Rightarrow> ('k \<times> 'v) list" where
  "Map_delete m k = filter (\<lambda>p. fst p \<noteq> k) m"

text \<open>
  A timer armed by \<open>setTimeout\<close> and not yet fired or cleared: its handle, its delay
  in milliseconds (\<open>None\<close> for \<open>NaN\<close>), and what its callback closes over (the title
  and target of the page's notification, or the \<open>time\<close> key of the worker's).
\<close>

record armed_timer =
  handle :: nat
  delay :: "int option"
  title :: string
  target :: json

definition clearTimeout :: "nat \<Rightarrow> armed_timer list \<Rightarrow> armed_timer list" where
  "clearTimeout h ts = filter (\<lambda>t. handle t \<noteq> h) ts"

section \<open>The notifications hook (page side)\<close>

datatype NotificationPermission = Default | Granted | Denied

datatype sw_message =
    SKIP_WAITING
  | SHOW_NOTIFICATION
  | SCHEDULE_NOTIFICATION string "int option"
  | CANCEL_NOTIFICATIONS
  | SCHEDULE_NEXT_NOTIFICATION

text \<open>
  What a call of the hook meets: the outcome of \<open>Notification.requestPermission()\<close>
  (a rejection carries the message of the \<open>Error\<close>, or \<open>None\<close> for another thrown
  value) and of \<open>apiFetch("/api/notifications/schedule")\<close>: the request fails, the
  response is not \<open>ok\<close>, its body does not parse, or it parses to a JSON value;
  and the clock and the time zone of the machine.
\<close>

datatype request_outcome = Resolved NotificationPermission | Rejected "string option"

datatype fetch_outcome =
    NetworkFailure "string option"
  | HttpNotOk
  | BodyUnreadable string
  | Fetched json

record page_env =
  windowDefined :: bool
  notificationSupported :: bool
  notificationPermission :: NotificationPermission
  requestOutcome :: request_outcome
  serviceWorker :: bool
  syncSupported :: bool
  fetchOutcome :: fetch_outcome
  clock :: timestamp
  timeZone :: time_zone

text \<open>
  The state the hook works on: the module-level \<open>scheduledTimeouts\<close> map, the timers
  of the page that \<open>scheduleNotificationForTime\<close> armed and that are still pending, the
  next timer handle, the messages posted to the worker (oldest first), the hook's
  \<open>permission\<close>, \<open>loading\<close> and \<open>error\<close>, and whether a background sync is
  registered.
\<close>

record page_state =
  scheduledTimeouts :: "(string \<times> nat) list"
  timers :: "armed_timer list"
  nextHandle :: nat
  posted :: "sw_message list"
  permission :: NotificationPermission
  loading :: bool
  error :: "string option"
  syncRegistered :: bool

definition sendMessageToSW :: "page_env \<Rightarrow> sw_message \<Rightarrow> page_state \<Rightarrow> page_state" where
  "sendMessageToSW env message s =
     (if \<not> windowDefined env \<or> \<not> serviceWorker env then s
      else s\<lparr>posted := posted s @ [message]\<rparr>)"

definition registerBackgroundSync :: "page_env \<Rightarrow> page_state \<Rightarrow> page_state" where
  "registerBackgroundSync env s =
     (if \<not> windowDefined env \<or> \<not> serviceWorker env then s
      else if syncSupported env then s\<lparr>syncRegistered := True\<rparr>
      else s)"

definition scheduleId_of :: "string \<Rightarrow> timestamp option \<Rightarrow> string" where
  "scheduleId_of time scheduledTime =
     time @ ''-'' @ (case scheduledTime of None \<Rightarrow> ''NaN'' | Some t \<Rightarrow> Number_toString t)"

text \<open>
  \<open>scheduleNotificationForTime\<close>: the state afterwards (the returned schedule id,
  which the caller drops, is \<^const>\<open>scheduleId_of\<close>).
\<close>

definition scheduleNotificationForTime ::
  "page_env \<Rightarrow> string \<Rightarrow> string \<Rightarrow> json \<Rightarrow> page_state \<Rightarrow> page_state" where
  "scheduleNotificationForTime env time bookmarkTitle bookmarkUrl s =
     (let now = clock env;
          scheduledTime = scheduledTime_for (timeZone env) now time;
          d = (case scheduledTime of None \<Rightarrow> None | Some t \<Rightarrow> Some (t - now));
          timeoutId = nextHandle s;
          s1 = s\<lparr>timers := timers s @
                    [\<lparr>handle = timeoutId, delay = d, title = ''Review: '' @ bookmarkTitle,
                      target = bookmarkUrl\<rparr>],
                 nextHandle := Suc timeoutId\<rparr>;
          s2 = sendMessageToSW env (SCHEDULE_NOTIFICATION time d) s1
      in s2\<lparr>scheduledTimeouts :=
               Map_set (scheduledTimeouts s2) (scheduleId_of time scheduledTime) timeoutId\<rparr>)"

definition cancelNotifications :: "page_env \<Rightarrow> page_state \<Rightarrow> page_state" where
  "cancelNotifications env s =
     sendMessageToSW env CANCEL_NOTIFICATIONS
       (s\<lparr>timers := fold (\<lambda>entry ts. clearTimeout (snd entry) ts) (scheduledTimeouts s) (timers s),
          scheduledTimeouts := []\<rparr>)"

definition requestNotificationPermission :: "page_env \<Rightarrow> page_state \<Rightarrow> bool \<times> page_state" where
  "requestNotificationPermission env s =
     (if \<not> windowDefined env \<or> \<not> notificationSupported env then
        (False, s\<lparr>error := Some ''This browser does not support notifications''\<rparr>)
      else if notificationPermission env = Granted then (True, s\<lparr>permission := Granted\<rparr>)
      else if notificationPermission env = Denied then
        (False, s\<lparr>permission := Denied,
                   error := Some ''Notification permission was previously denied''\<rparr>)
      else (case requestOutcome env of
              Resolved result \<Rightarrow>
                (result = Granted,
                 s\<lparr>permission := result,
                    error := (if result = Granted then None
                              else Some ''Notification permission was denied''),
                    loading := False\<rparr>)
            | Rejected m \<Rightarrow>
                (False,
                 s\<lparr>error := Some (case m of
                                    Some errorMessage \<Rightarrow> errorMessage
                                  | None \<Rightarrow> ''Failed to request notification permission''),
                    loading := False\<rparr>)))"

text \<open>
  The loop \<open>for (const time of settings.schedule)\<close>. An element that is not a
  string has no \<open>split\<close>: the call raises a \<open>TypeError\<close> (first component \<open>Some\<close>),
  which ends the loop with the earlier entries armed.
\<close>

fun schedule_loop ::
  "page_env \<Rightarrow> string \<Rightarrow> json \<Rightarrow> json list \<Rightarrow> page_state \<Rightarrow> string option \<times> page_state" where
  "schedule_loop env bookmarkTitle bookmarkUrl [] s = (None, s)"
| "schedule_loop env bookmarkTitle bookmarkUrl (JString time # rest) s =
     schedule_loop env bookmarkTitle bookmarkUrl rest
       (scheduleNotificationForTime env time bookmarkTitle bookmarkUrl s)"
| "schedule_loop env bookmarkTitle bookmarkUrl (_ # rest) s =
     (Some ''time.split is not a function'', s)"

text \<open>\<open>bookmarkPreview?.k\<close>\<close>

definition optional_prop :: "json option \<Rightarrow> string \<Rightarrow> json option" where
  "optional_prop v k =
     (case v of None \<Rightarrow> None | Some JNull \<Rightarrow> None | Some w \<Rightarrow> get_prop w k)"

definition failed :: "string \<Rightarrow> page_state \<Rightarrow> page_state" where
  "failed errorMessage s = s\<lparr>error := Some errorMessage, loading := False\<rparr>"

text \<open>
  The messages of the errors the JavaScript engine raises (reading a property of
  \<open>null\<close>, calling a missing method, using an undeclared name) are those of V8.
\<close>

definition null_property_message :: string where
  "null_property_message =
     ''Cannot read properties of null (reading '' @ [CHR 0x27] @ ''bookmarkPreview''
       @ [CHR 0x27] @ '')''"

text \<open>The message the hook surfaces for each failure of the fetch.\<close>

definition fetch_failure_message :: "fetch_outcome \<Rightarrow> string option" where
  "fetch_failure_message outcome =
     (case outcome of
        NetworkFailure (Some errorMessage) \<Rightarrow> Some errorMessage
      | NetworkFailure None \<Rightarrow> Some ''Failed to schedule notifications''
      | HttpNotOk \<Rightarrow> Some ''Failed to fetch notification schedule''
      | BodyUnreadable errorMessage \<Rightarrow> Some errorMessage
      | Fetched _ \<Rightarrow> None)"

definition scheduleNotifications ::
  "page_env \<Rightarrow> NotificationSettings \<Rightarrow> page_state \<Rightarrow> page_state" where
  "scheduleNotifications env settings s =
     (if \<not> windowDefined env then s
      else
        (let s0 = s\<lparr>loading := True, error := None\<rparr> in
         if \<not> notificationSupported env then failed ''Notification is not defined'' s0
         else
           (case (if notificationPermission env \<noteq> Granted
                  then requestNotificationPermission env s0 else (True, s0)) of
              (granted, s1) \<Rightarrow>
                if \<not> granted then
                  failed ''Notification permission is required to schedule notifications'' s1
                else
                  (let s2 = cancelNotifications env s1 in
                   if \<not> (enabled settings \<and> schedule settings \<noteq> []) then s2\<lparr>loading := False\<rparr>
                   else
                     (case fetchOutcome env of
                        Fetched scheduleData \<Rightarrow>
                          (if scheduleData = JNull then
                             failed null_property_message s2
                           else
                             (let bookmarkPreview = get_prop scheduleData ''bookmarkPreview'';
                                  bookmarkTitle =
                                    (case optional_prop bookmarkPreview ''name'' of
                                       None \<Rightarrow> ''Your bookmark''
                                     | Some n \<Rightarrow> if truthy n then ToString n else ''Your bookmark'');
                                  bookmarkUrl =
                                    (case optional_prop bookmarkPreview ''url'' of
                                       None \<Rightarrow> JString []
                                     | Some u \<Rightarrow> if truthy u then u else JString [])
                              in (case schedule_loop env bookmarkTitle bookmarkUrl
                                         (schedule settings) s2 of
                                    (Some errorMessage, s3) \<Rightarrow> failed errorMessage s3
                                  | (None, s3) \<Rightarrow>
                                      (registerBackgroundSync env s3)\<lparr>loading := False\<rparr>)))
                      | outcome \<Rightarrow>
                          (case fetch_failure_message outcome of
                             Some errorMessage \<Rightarrow> failed errorMessage s2
                           | None \<Rightarrow> s2))))))"

section \<open>The notification worker: messages and timers\<close>

text \<open>
  The \<open>message\<close> listener of \<open>src/unnamed/part_001\<close>, on the state it keeps: the
  \<open>scheduledNotifications\<close> map, the worker's pending timers (the \<open>title\<close> of a timer
  holds the \<open>time\<close> key its callback deletes) and the next handle. \<open>SKIP_WAITING\<close>
  and \<open>SHOW_NOTIFICATION\<close> arm and clear no timer.
\<close>

record worker_state =
  scheduledNotifications :: "(string \<times> nat) list"
  workerTimers :: "armed_timer list"
  nextWorkerHandle :: nat

definition on_message :: "sw_message \<Rightarrow> worker_state \<Rightarrow> worker_state" where
  "on_message message w =
     (case message of
        SCHEDULE_NOTIFICATION time d \<Rightarrow>
          (let timeoutId = nextWorkerHandle w
           in w\<lparr>workerTimers := workerTimers w @
                    [\<lparr>handle = timeoutId, delay = d, title = time, target = JNull\<rparr>],
                 nextWorkerHandle := Suc timeoutId,
                 scheduledNotifications := Map_set (scheduledNotifications w) time timeoutId\<rparr>)
      | CANCEL_NOTIFICATIONS \<Rightarrow>
          w\<lparr>workerTimers :=
               fold (\<lambda>entry ts. clearTimeout (snd entry) ts) (scheduledNotifications w)
                 (workerTimers w),
             scheduledNotifications := []\<rparr>
      | _ \<Rightarrow> w)"

text \<open>A timer of the worker fires: its callback ends with \<open>scheduledNotifications.delete(time)\<close>.\<close>

definition worker_timer_fires :: "armed_timer \<Rightarrow> worker_state \<Rightarrow> worker_state" where
  "worker_timer_fires t w =
     w\<lparr>workerTimers := clearTimeout (handle t) (workerTimers w),
        scheduledNotifications := Map_delete (scheduledNotifications w) (title t)\<rparr>"

definition initial_page_state :: page_state where
  "initial_page_state =
     \<lparr>scheduledTimeouts = [], timers = [], nextHandle = 0, posted = [], permission = Default,
      loading = False, error = None, syncRegistered = False\<rparr>"

definition initial_worker_state :: worker_state where
  "initial_worker_state = \<lparr>scheduledNotifications = [], workerTimers = [], nextWorkerHandle = 0\<rparr>"

section \<open>Notification click\<close>

text \<open>
  The \<open>notificationclick\<close> listeners. A window client is its \<open>url\<close> and whether it
  has a \<open>focus\<close> method; \<open>data\<close> is \<open>event.notification.data\<close> (\<open>None\<close> when
  undefined); the result lists what the handler does, in order.

  \<^verbatim>\<open>const urlToOpen = event.notification.data?.url || '/flashcards';\<close>
\<close>

record window_client =
  url :: string
  focusable :: bool

datatype click_effect =
    NotificationClosed
  | ClientFocused window_client
  | WindowOpened string

definition urlToOpen :: "json option \<Rightarrow> json" where
  "urlToOpen data =
     (case optional_prop data ''url'' of
        None \<Rightarrow> JString ''/flashcards''
      | Some u \<Rightarrow> if truthy u then u else JString ''/flashcards'')"

text \<open>
  \<open>src/unnamed/part_001\<close> (and the worker source in the second part of
  \<open>src/unnamed/part_004\<close>): the test is \<open>client.url.includes(urlToOpen)\<close>.
\<close>

definition notificationclick_includes ::
  "window_client list \<Rightarrow> bool \<Rightarrow> json option \<Rightarrow> click_effect list" where
  "notificationclick_includes clientList openWindowAvailable data =
     NotificationClosed #
       (case find (\<lambda>client. str_includes (url client) (ToString (urlToOpen data)) \<and> focusable client)
               clientList of
          Some client \<Rightarrow> [ClientFocused client]
        | None \<Rightarrow>
            if openWindowAvailable then [WindowOpened (ToString (urlToOpen data))] else [])"

text \<open>
  The TypeScript worker in the first part of \<open>src/unnamed/part_004\<close>: the test is
  \<open>client.url === urlToOpen\<close>, strict equality with no conversion.
\<close>

definition notificationclick_equals ::
  "window_client list \<Rightarrow> bool \<Rightarrow> json option \<Rightarrow> click_effect list" where
  "notificationclick_equals clientList openWindowAvailable data =
     NotificationClosed #
       (case find (\<lambda>client. JString (url client) = urlToOpen data \<and> focusable client)
               clientList of
          Some client \<Rightarrow> [ClientFocused client]
        | None \<Rightarrow>
            if openWindowAvailable then [WindowOpened (ToString (urlToOpen data))] else [])"

section \<open>The offline-cache worker\<close>

text \<open>
  \<open>src/unnamed/part_003\<close>. A request is its HTTP method (\<open>request.method\<close>),
  the parts of \<open>new URL(request.url)\<close> that the worker reads (\<open>request.url\<close> is
  their concatenation; the URL has no fragment), and its headers, with names in lower
  case. A response is its status, its \<open>Content-Type\<close>, the header names its
  \<open>Vary\<close> header lists, and its body.
\<close>

record sw_request =
  http_method :: string
  origin :: string
  pathname :: string
  search :: string
  headers :: "(string \<times> string) list"

definition request_url :: "sw_request \<Rightarrow> string" where
  "request_url r = origin r @ pathname r @ search r"

text \<open>\<open>request.headers.get(name)\<close>\<close>

definition headers_get :: "sw_request \<Rightarrow> string \<Rightarrow> string option" where
  "headers_get r n = map_of (headers r) n"

record sw_response =
  statusCode :: nat
  contentType :: string
  vary :: "string list"
  content :: string

text \<open>
  Cache storage: the names of the caches in the order of their creation, and the
  entries of each, oldest first; an entry is a request with the response stored for it.

  A stored entry answers a request (of method \<open>GET\<close>; any other is answered by no
  entry) when the URLs are equal and the two requests agree on every header that
  the stored response's \<open>Vary\<close> names. \<open>cache.match\<close> gives the response of the
  first such entry, and \<open>caches.match\<close> answers from the first cache, in creation
  order, that has one.
\<close>

record cache_storage =
  cacheNames :: "string list"
  entriesOf :: "string \<Rightarrow> (sw_request \<times> sw_response) list"

definition request_matches :: "sw_request \<Rightarrow> sw_request \<times> sw_response \<Rightarrow> bool" where
  "request_matches query item =
     (request_url query = request_url (fst item)
      \<and> list_all (\<lambda>n. n \<noteq> ''*'' \<and> headers_get (fst item) n = headers_get query n)
           (vary (snd item)))"

definition cache_match :: "(sw_request \<times> sw_response) list \<Rightarrow> sw_request \<Rightarrow> sw_response option" where
  "cache_match entries query =
     (if http_method query = ''GET'' then map_option snd (find (request_matches query) entries)
      else None)"

definition caches_match :: "cache_storage \<Rightarrow> sw_request \<Rightarrow> sw_response option" where
  "caches_match caches request =
     (case find (\<lambda>n. cache_match (entriesOf caches n) request \<noteq> None) (cacheNames caches) of
        None \<Rightarrow> None
      | Some n \<Rightarrow> cache_match (entriesOf caches n) request)"

text \<open>
  \<^verbatim>\<open>caches.open(cacheName).then((cache) => { cache.put(request, responseClone); });\<close>
  \<open>caches.open\<close> creates the cache when there is none of that name. \<open>cache.put\<close>
  rejects, storing nothing, a request whose method is not \<open>GET\<close>, a response of
  status 206 and a response whose \<open>Vary\<close> is \<open>*\<close>; the worker does not look at
  the promise. Otherwise it removes the entries that answer the request and adds the
  new entry last.
\<close>

definition put_accepts :: "sw_request \<Rightarrow> sw_response \<Rightarrow> bool" where
  "put_accepts request r =
     (http_method request = ''GET'' \<and> statusCode r \<noteq> 206 \<and> list_all (\<lambda>n. n \<noteq> ''*'') (vary r))"

definition cache_put :: "cache_storage \<Rightarrow> string \<Rightarrow> sw_request \<Rightarrow> sw_response \<Rightarrow> cache_storage" where
  "cache_put caches cacheName request r =
     caches\<lparr>cacheNames := (if cacheName \<in> set (cacheNames caches) then cacheNames caches
                           else cacheNames caches @ [cacheName]),
            entriesOf :=
              (if put_accepts request r then
                 (entriesOf caches)
                   (cacheName := filter (\<lambda>item. \<not> request_matches request item)
                                   (entriesOf caches cacheName) @ [(request, r)])
               else entriesOf caches)\<rparr>"

text \<open>Cache storage with no cache at all.\<close>

definition no_caches :: cache_storage where
  "no_caches = \<lparr>cacheNames = [], entriesOf = (\<lambda>n. [])\<rparr>"

definition CACHE_NAME :: string where "CACHE_NAME = ''zenchi-keep-v1''"
definition API_CACHE_NAME :: string where "API_CACHE_NAME = ''zenchi-keep-api-v1''"
definition CACHE_ROUTES :: "string list" where "CACHE_ROUTES = [''/'', ''/flashcards'', ''/settings'']"

definition offline_json :: sw_response where
  "offline_json =
     \<lparr>statusCode = 503, contentType = ''application/json'', vary = [],
      content = ''{'' @ [CHR 0x22] @ ''error'' @ [CHR 0x22] @ '':'' @ [CHR 0x22]
                @ ''Offline: No cached data available'' @ [CHR 0x22] @ ''}''\<rparr>"

definition offline_text :: sw_response where
  "offline_text = \<lparr>statusCode = 503, contentType = ''text/plain'', vary = [], content = ''Offline''\<rparr>"

definition offline_html :: sw_response where
  "offline_html =
     \<lparr>statusCode = 503, contentType = ''text/html'', vary = [],
      content = ''<!DOCTYPE html><html><head><title>Offline</title></head><body><h1>You are offline</h1><p>Please check your connection and try again.</p></body></html>''\<rparr>"

text \<open>
  \<open>networkFirstStrategy\<close>: \<open>network\<close> is the outcome of \<open>fetch(request)\<close>, \<open>None\<close>
  when it rejects (a response of any status resolves it). The result is the response
  and the cache storage once the background \<open>cache.put\<close> has run.
\<close>

definition networkFirstStrategy ::
  "sw_response option \<Rightarrow> sw_request \<Rightarrow> string \<Rightarrow> cache_storage \<Rightarrow> sw_response \<times> cache_storage" where
  "networkFirstStrategy network request cacheName caches =
     (case network of
        Some networkResponse \<Rightarrow> (networkResponse, cache_put caches cacheName request networkResponse)
      | None \<Rightarrow>
          (case caches_match caches request of
             Some cachedResponse \<Rightarrow> (cachedResponse, caches)
           | None \<Rightarrow>
               if str_includes (request_url request) ''/api/'' then (offline_json, caches)
               else (offline_text, caches)))"

text \<open>\<open>cacheFirstStrategy\<close>: \<open>None\<close> as response is the rethrown network error.\<close>

definition cacheFirstStrategy ::
  "sw_response option \<Rightarrow> sw_request \<Rightarrow> string \<Rightarrow> cache_storage
     \<Rightarrow> sw_response option \<times> cache_storage" where
  "cacheFirstStrategy network request cacheName caches =
     (case caches_match caches request of
        Some cachedResponse \<Rightarrow> (Some cachedResponse, caches)
      | None \<Rightarrow>
          (case network of
             Some networkResponse \<Rightarrow>
               (Some networkResponse, cache_put caches cacheName request networkResponse)
           | None \<Rightarrow>
               (case headers_get request ''accept'' of
                  None \<Rightarrow> (None, caches)
                | Some a \<Rightarrow>
                    if str_includes a ''text/html'' then (Some offline_html, caches)
                    else (None, caches))))"

text \<open>
  The \<open>fetch\<close> listener. \<open>NotHandled\<close>: the worker leaves the request to the browser;
  \<open>RespondedError\<close>: the promise given to \<open>respondWith\<close> rejects.
\<close>

datatype fetch_result = NotHandled | Responded sw_response | RespondedError

datatype strategy = NetworkFirst | CacheFirst

definition strategy_of :: "string \<Rightarrow> sw_request \<Rightarrow> (strategy \<times> string) option" where
  "strategy_of location_origin request =
     (if origin request \<noteq> location_origin then None
      else if startsWith (pathname request) ''/api/'' then Some (NetworkFirst, API_CACHE_NAME)
      else if pathname request \<in> set CACHE_ROUTES \<or> startsWith (pathname request) ''/_next/static/''
      then Some (CacheFirst, CACHE_NAME)
      else Some (NetworkFirst, CACHE_NAME))"

definition on_fetch ::
  "string \<Rightarrow> sw_response option \<Rightarrow> sw_request \<Rightarrow> cache_storage \<Rightarrow> fetch_result \<times> cache_storage" where
  "on_fetch location_origin network request caches =
     (case strategy_of location_origin request of
        None \<Rightarrow> (NotHandled, caches)
      | Some (NetworkFirst, cacheName) \<Rightarrow>
          (case networkFirstStrategy network request cacheName caches of
             (r, caches') \<Rightarrow> (Responded r, caches'))
      | Some (CacheFirst, cacheName) \<Rightarrow>
          (case cacheFirstStrategy network request cacheName caches of
             (Some r, caches') \<Rightarrow> (Responded r, caches')
           | (None, caches') \<Rightarrow> (RespondedError, caches')))"

text \<open>
  The routes the listener itself treats as API routes, for the statement of the
  placeholder rule.
\<close>

definition is_api_route :: "sw_request \<Rightarrow> bool" where
  "is_api_route request = startsWith (pathname request) ''/api/''"

section \<open>Predicates of the specification\<close>

text \<open>
  The acceptance condition the specification gives for a body posted to the settings
  route: \<open>enabled\<close> a boolean, \<open>schedule\<close> an array of strings that each match the
  time pattern, \<open>lastNotificationDate\<close> a string.
\<close>

definition valid_settings_body :: "json \<Rightarrow> bool" where
  "valid_settings_body body =
     (case (as_boolean (get_prop body ''enabled''), as_array (get_prop body ''schedule''),
            as_string (get_prop body ''lastNotificationDate'')) of
        (Some e, Some xs, Some d) \<Rightarrow>
          (case string_elements xs of
             None \<Rightarrow> False
           | Some entries \<Rightarrow> list_all isValidTime entries)
      | _ \<Rightarrow> False)"

text \<open>
  Every timer of the page that is still armed is recorded in \<open>scheduledTimeouts\<close>
  (and likewise for the worker).
\<close>

definition all_tracked :: "(string \<times> nat) list \<Rightarrow> armed_timer list \<Rightarrow> bool" where
  "all_tracked m ts = list_all (\<lambda>t. handle t \<in> snd ` set m) ts"

text \<open>
  The fetch of the preview is reached: the page has a window and notifications, and
  permission is granted already or on request.
\<close>

definition permission_obtained :: "page_env \<Rightarrow> bool" where
  "permission_obtained env =
     (windowDefined env \<and> notificationSupported env
      \<and> (notificationPermission env = Granted
          \<or> (notificationPermission env = Default \<and> requestOutcome env = Resolved Granted)))"


text \<open>
  The schedule entry \<open>HH:MM\<close> of the hour \<open>h\<close> and the minute \<open>m\<close>, two decimal
  digits each.
\<close>

definition digit_char :: "nat \<Rightarrow> char" where
  "digit_char d = ''0123456789'' ! d"

definition HH_MM :: "nat \<Rightarrow> nat \<Rightarrow> string" where
  "HH_MM h m =
     [digit_char (h div 10), digit_char (h mod 10), CHR '':'',
      digit_char (m div 10), digit_char (m mod 10)]"

text \<open>
  What the specification calls an occurrence of the entry of hour \<open>h\<close> and minute
  \<open>m\<close>: an instant at which the local clock reads \<open>h:m:00.000\<close>. The local
  calendar day of an instant and the minute of the day its local clock shows.
\<close>

definition is_occurrence :: "time_zone \<Rightarrow> nat \<Rightarrow> nat \<Rightarrow> timestamp \<Rightarrow> bool" where
  "is_occurrence tz h m t =
     (LocalTime tz t mod msPerDay = int h * msPerHour + int m * msPerMinute)"

definition day_of :: "time_zone \<Rightarrow> timestamp \<Rightarrow> int" where
  "day_of tz t = LocalTime tz t div msPerDay"

definition minute_of_day :: "time_zone \<Rightarrow> timestamp \<Rightarrow> int" where
  "minute_of_day tz t = (LocalTime tz t mod msPerDay) div msPerMinute"

text \<open>
  The offset of the time zone does not change near \<open>now\<close>: every transition of the
  zone lies three days or more before or after it (offsets are within a day of UTC).
  And \<open>now\<close> lies two days or more inside the range of \<open>Date\<close>.
\<close>

definition steady_around :: "time_zone \<Rightarrow> timestamp \<Rightarrow> bool" where
  "steady_around tz now =
     (\<bar>standard tz\<bar> \<le> msPerDay
      \<and> list_all (\<lambda>tr. \<bar>snd tr\<bar> \<le> msPerDay
                        \<and> (fst tr + 3 * msPerDay \<le> now \<or> now + 3 * msPerDay \<le> fst tr))
           (transitions tz))"

definition inside_Date_range :: "timestamp \<Rightarrow> bool" where
  "inside_Date_range now = (\<bar>now\<bar> + 2 * msPerDay \<le> 8640000000000000)"

chapter \<open>Properties\<close>

section \<open>Next occurrence: proofs\<close>

subsection \<open>Reading an entry\<close>

lemma digit_chars:
  "char_of (48::nat) = CHR ''0''" "char_of (49::nat) = CHR ''1''" "char_of (50::nat) = CHR ''2''"
  "char_of (51::nat) = CHR ''3''" "char_of (52::nat) = CHR ''4''" "char_of (53::nat) = CHR ''5''"
  "char_of (54::nat) = CHR ''6''" "char_of (55::nat) = CHR ''7''" "char_of (56::nat) = CHR ''8''"
  "char_of (57::nat) = CHR ''9''"
  by code_simp+

lemma digit_char_cases:
  assumes "d < 10"
  shows "d = 0 \<or> d = 1 \<or> d = 2 \<or> d = 3 \<or> d = 4 \<or> d = 5 \<or> d = 6 \<or> d = 7 \<or> d = 8 \<or> d = (9::nat)"
  using assms by arith

lemma digit_char_value:
  assumes "d < 10"
  shows "digit_value (digit_char d) = Some d" "is_digit_in 10 (digit_char d)"
    "digit_char d \<noteq> CHR '':''" "\<not> is_space (digit_char d)"
proof -
  have v: "digit_value (digit_char d) = Some d"
    using digit_char_cases[OF assms]
    by (elim disjE) (simp_all add: digit_char_def digit_value_def)
  show "digit_value (digit_char d) = Some d" by (rule v)
  show "is_digit_in 10 (digit_char d)" using v assms by (simp add: is_digit_in_def)
  show "digit_char d \<noteq> CHR '':''"
    using digit_char_cases[OF assms] by (elim disjE) (simp_all add: digit_char_def)
  show "\<not> is_space (digit_char d)"
    using digit_char_cases[OF assms] by (elim disjE) (simp_all add: digit_char_def is_space_def)
qed

lemma two_digits:
  assumes "is_digit_in 10 a" "is_digit_in 10 b" "digit_value a = Some x" "digit_value b = Some y"
    "\<not> is_space a" "\<not> is_space b"
  shows "Number_of_string [a, b] = Some (int (x * 10 + y))"
  using assms by (simp add: Number_of_string_def digits_value_def)

lemma split_time:
  assumes "a \<noteq> CHR '':''" "b \<noteq> CHR '':''" "d \<noteq> CHR '':''" "e \<noteq> CHR '':''"
  shows "split CHR '':'' [a, b, CHR '':'', d, e] = [[a, b], [d, e]]"
  using assms by simp

lemma two_digit_number:
  assumes "n < 100"
  shows "Number_of_string [digit_char (n div 10), digit_char (n mod 10)] = Some (int n)"
proof -
  have a: "n div 10 < 10" and b: "n mod 10 < 10" using assms by simp_all
  have "Number_of_string [digit_char (n div 10), digit_char (n mod 10)]
      = Some (int (n div 10 * 10 + n mod 10))"
    by (rule two_digits) (simp_all add: digit_char_value[OF a] digit_char_value[OF b])
  then show ?thesis by simp
qed

lemma parse_HH_MM:
  assumes "h < 24" "m < 60"
  shows "parse_time (HH_MM h m) = Some (int h, int m)"
proof -
  have h: "h div 10 < 10" "h mod 10 < 10" and m: "m div 10 < 10" "m mod 10 < 10"
    using assms by simp_all
  have sp: "split CHR '':'' (HH_MM h m)
      = [[digit_char (h div 10), digit_char (h mod 10)],
         [digit_char (m div 10), digit_char (m mod 10)]]"
    unfolding HH_MM_def
    by (rule split_time) (simp_all add: digit_char_value(3) h m)
  have nh: "Number_of_string [digit_char (h div 10), digit_char (h mod 10)] = Some (int h)"
    by (rule two_digit_number) (use assms in simp)
  have nm: "Number_of_string [digit_char (m div 10), digit_char (m mod 10)] = Some (int m)"
    by (rule two_digit_number) (use assms in simp)
  show ?thesis by (simp add: parse_time_def sp nh nm)
qed

lemma HH_MM_valid:
  assumes "h < 24" "m < 60"
  shows "isValidTime (HH_MM h m)"
proof -
  have c: "(of_char (digit_char d) :: nat) = 48 + d" if "d < 10" for d
    using digit_char_cases[OF that] by (elim disjE) (simp_all add: digit_char_def)
  have h: "h div 10 < 10" "h mod 10 < 10" and m: "m div 10 < 10" "m mod 10 < 10"
    using assms by simp_all
  have two: "digit_char (h div 10) = CHR ''2'' \<longleftrightarrow> h div 10 = 2"
    using digit_char_cases[OF h(1)] by (elim disjE) (simp_all add: digit_char_def)
  have hb: "h div 10 \<le> 1 \<or> (h div 10 = 2 \<and> h mod 10 \<le> 3)" using assms(1) by presburger
  have mb: "m div 10 \<le> 5" using assms(2) by simp
  have nine: "h mod 10 \<le> 9" "m mod 10 \<le> 9" using h(2) m(2) by linarith+
  show ?thesis
    using hb mb nine
    by (simp add: isValidTime_def HH_MM_def char_between_def c[OF h(1)] c[OF h(2)]
        c[OF m(1)] c[OF m(2)] two)
qed

text \<open>
  The entries \<open>HH_MM h m\<close> with \<open>h < 24\<close> and \<open>m < 60\<close> are the strings
  that match the pattern of the settings route and the settings component.
\<close>

lemma digit_char_of_char:
  assumes "char_between CHR ''0'' CHR ''9'' c"
  shows "of_char c - 48 < (10::nat)" "digit_char (of_char c - 48) = c"
proof -
  define k where "k = (of_char c :: nat)"
  have c: "c = char_of k" by (simp add: k_def)
  have k: "48 \<le> k" "k \<le> 57" using assms by (simp_all add: char_between_def k_def)
  show "of_char c - 48 < (10::nat)" using k by (simp add: k_def)
  have "k = 48 \<or> k = 49 \<or> k = 50 \<or> k = 51 \<or> k = 52 \<or> k = 53 \<or> k = 54 \<or> k = 55 \<or> k = 56 \<or> k = 57"
    using k by arith
  then have "digit_char (k - 48) = char_of k"
    by (elim disjE) (simp_all add: digit_char_def digit_chars)
  then show "digit_char (of_char c - 48) = c" by (simp add: k_def)
qed

lemma valid_entry_is_HH_MM:
  assumes "isValidTime time"
  shows "\<exists>h m. h < 24 \<and> m < 60 \<and> time = HH_MM h m"
proof -
  from assms obtain a b d e where t: "time = [a, b, CHR '':'', d, e]"
    and ab: "(char_between CHR ''0'' CHR ''1'' a \<and> char_between CHR ''0'' CHR ''9'' b)
            \<or> (a = CHR ''2'' \<and> char_between CHR ''0'' CHR ''3'' b)"
    and d: "char_between CHR ''0'' CHR ''5'' d" and e: "char_between CHR ''0'' CHR ''9'' e"
    by (auto simp: isValidTime_def split: list.splits)
  have a9: "char_between CHR ''0'' CHR ''9'' a" and b9: "char_between CHR ''0'' CHR ''9'' b"
    and d9: "char_between CHR ''0'' CHR ''9'' d"
    using ab d by (auto simp: char_between_def)
  define x y z w where "x = (of_char a :: nat) - 48" and "y = (of_char b :: nat) - 48"
    and "z = (of_char d :: nat) - 48" and "w = (of_char e :: nat) - 48"
  note A = digit_char_of_char[OF a9, folded x_def] and B = digit_char_of_char[OF b9, folded y_def]
    and D = digit_char_of_char[OF d9, folded z_def] and E = digit_char_of_char[OF e, folded w_def]
  have hb: "x * 10 + y < 24" using ab by (auto simp: char_between_def x_def y_def)
  have mb: "z * 10 + w < 60" using d e by (auto simp: char_between_def z_def w_def)
  have dm: "(x * 10 + y) div 10 = x" "(x * 10 + y) mod 10 = y"
    "(z * 10 + w) div 10 = z" "(z * 10 + w) mod 10 = w"
    using A(1) B(1) D(1) E(1) by simp_all
  have "time = HH_MM (x * 10 + y) (z * 10 + w)"
    unfolding HH_MM_def dm by (simp add: t A(2) B(2) D(2) E(2))
  then show ?thesis using hb mb by blast
qed

subsection \<open>A zone whose offset does not change near now\<close>

lemma walk_window:
  fixes now t off :: int
  assumes "\<bar>off\<bar> \<le> 86400000"
    and "list_all (\<lambda>tr. \<bar>snd tr\<bar> \<le> 86400000
                    \<and> (fst tr + 3 * 86400000 \<le> now \<or> now + 3 * 86400000 \<le> fst tr)) trs"
    and "now - 86400000 \<le> t" "t \<le> now + 2 * 86400000"
  shows "offset_at off trs t = offset_at off trs now
       \<and> UTC_from off trs (t + offset_at off trs now) = t
       \<and> \<bar>offset_at off trs now\<bar> \<le> 86400000"
  using assms
proof (induction trs arbitrary: off)
  case Nil
  then show ?case by simp
next
  case (Cons tr trs)
  obtain T off' where tr: "tr = (T, off')" by (cases tr)
  have o': "\<bar>off'\<bar> \<le> 86400000"
    and far: "T + 3 * 86400000 \<le> now \<or> now + 3 * 86400000 \<le> T"
    and rest: "list_all (\<lambda>tr. \<bar>snd tr\<bar> \<le> 86400000
                    \<and> (fst tr + 3 * 86400000 \<le> now \<or> now + 3 * 86400000 \<le> fst tr)) trs"
    using Cons.prems(2) by (simp_all add: tr)
  show ?case
  proof (cases "now < T")
    case True
    then have "now + 3 * 86400000 \<le> T" using far by linarith
    then have "t < T" using Cons.prems(4) by linarith
    then show ?thesis using True Cons.prems(1) by (simp add: tr)
  next
    case False
    then have past: "T + 3 * 86400000 \<le> now" using far by linarith
    then have tT: "\<not> t < T" using Cons.prems(3) by linarith
    note ih = Cons.IH[OF o' rest Cons.prems(3,4)]
    define s where "s = offset_at off' trs now"
    have s: "\<bar>s\<bar> \<le> 86400000" using ih by (simp add: s_def)
    have a: "\<not> (t + s - off < T)" using past Cons.prems(1,3) s by linarith
    have b: "\<not> (t + s - off' < T)" using past o' Cons.prems(3) s by linarith
    have oa: "offset_at off (tr # trs) now = s" using False by (simp add: tr s_def)
    have ot: "offset_at off (tr # trs) t = offset_at off' trs t" using tT by (simp add: tr)
    have ut: "UTC_from off (tr # trs) (t + s) = UTC_from off' trs (t + s)"
      using a b by (simp add: tr)
    show ?thesis
      unfolding oa ot ut using ih s by (simp add: s_def)
  qed
qed

lemma steady_window:
  assumes st: "steady_around tz now"
    and t: "now - 86400000 \<le> t" "t \<le> now + 2 * 86400000"
  defines "s \<equiv> LocalTime tz now - now"
  shows "LocalTime tz t = t + s" "UTC tz (t + s) = t"
proof -
  have s: "s = offset_at (standard tz) (transitions tz) now" by (simp add: s_def LocalTime_def)
  have a: "\<bar>standard tz\<bar> \<le> 86400000"
    and b: "list_all (\<lambda>tr. \<bar>snd tr\<bar> \<le> 86400000
                    \<and> (fst tr + 3 * 86400000 \<le> now \<or> now + 3 * 86400000 \<le> fst tr))
              (transitions tz)"
    using st by (simp_all add: steady_around_def msPerDay_def)
  note w = walk_window[OF a b t]
  show "LocalTime tz t = t + s" using w by (simp add: LocalTime_def s)
  show "UTC tz (t + s) = t" using w by (simp add: UTC_def s)
qed

subsection \<open>Wall-clock arithmetic\<close>

lemma page_core:
  fixes now off :: int
  assumes o0: "0 \<le> off" and o1: "off < 86400000"
  defines "st \<equiv> (now div 86400000) * 86400000 + off"
  defines "nx \<equiv> (if st \<le> now then st + 86400000 else st)"
  shows "now < nx" "nx mod 86400000 = off"
    "\<And>t'. now < t' \<Longrightarrow> t' mod 86400000 = off \<Longrightarrow> nx \<le> t'"
    "nx div 86400000 = (if st \<le> now then now div 86400000 + 1 else now div 86400000)"
proof -
  define q where "q = now div 86400000"
  define r where "r = now mod 86400000"
  have nowd: "now = q * 86400000 + r" by (simp add: q_def r_def)
  have r0: "0 \<le> r" and r1: "r < 86400000" by (simp_all add: r_def)
  have st: "st = q * 86400000 + off" by (simp add: st_def q_def)
  show "now < nx"
  proof (cases "st \<le> now")
    case True
    then have "nx = st + 86400000" by (simp add: nx_def)
    then show ?thesis using st nowd r1 o0 by linarith
  next
    case False
    then show ?thesis by (simp add: nx_def)
  qed
  have m: "(k * 86400000 + off) mod 86400000 = off" for k :: int using o0 o1 by simp
  have d: "(k * 86400000 + off) div 86400000 = k" for k :: int using o0 o1 by simp
  note m1 = m[of q] and m2 = m[of "q + 1"] and d1 = d[of q] and d2 = d[of "q + 1"]
  have alt: "st + 86400000 = (q + 1) * 86400000 + off" using st by (simp add: algebra_simps)
  show "nx mod 86400000 = off"
  proof (cases "st \<le> now")
    case True
    then have "nx = (q + 1) * 86400000 + off" using alt by (simp only: nx_def if_True)
    then show ?thesis by (simp only: m2)
  next
    case False
    then have "nx = q * 86400000 + off" using st by (simp only: nx_def if_False)
    then show ?thesis by (simp only: m1)
  qed
  show "nx div 86400000 = (if st \<le> now then now div 86400000 + 1 else now div 86400000)"
  proof (cases "st \<le> now")
    case True
    then have "nx = (q + 1) * 86400000 + off" using alt by (simp only: nx_def if_True)
    then show ?thesis using True by (simp only: d2[unfolded q_def] q_def if_True)
  next
    case False
    then have "nx = q * 86400000 + off" using st by (simp only: nx_def if_False)
    then show ?thesis using False by (simp only: d1[unfolded q_def] q_def if_False)
  qed
  fix t' :: int
  assume gt: "now < t'" and md: "t' mod 86400000 = off"
  define q' where "q' = t' div 86400000"
  have t'd: "t' = q' * 86400000 + off" using md by (simp add: q'_def flip: md)
  have ge: "q \<le> q'" unfolding q_def q'_def using gt by (simp add: zdiv_mono1)
  show "nx \<le> t'"
  proof (cases "q' = q")
    case True
    then have "t' = st" using t'd st by simp
    then show ?thesis using gt by (simp add: nx_def)
  next
    case False
    then have "q + 1 \<le> q'" using ge by linarith
    then have "(q + 1) * 86400000 \<le> q' * 86400000" by simp
    then have "st + 86400000 \<le> t'" using t'd alt by linarith
    then show ?thesis by (simp add: nx_def)
  qed
qed

lemma hours_minutes_eq:
  fixes x :: int
  shows "(x div 3600000) * 60 + (x mod 3600000) div 60000 = x div 60000"
proof -
  define a where "a = x div 3600000"
  define b where "b = x mod 3600000"
  have x: "x = a * 3600000 + b" by (simp add: a_def b_def)
  have "x div 60000 = (b + (a * 60) * 60000) div 60000" by (simp add: x algebra_simps)
  also have "\<dots> = b div 60000 + a * 60" by simp
  finally show ?thesis by (simp add: a_def b_def)
qed

lemma st_le_iff:
  fixes now x :: int
  shows "(now div 86400000) * 86400000 + x * 60000 \<le> now \<longleftrightarrow> x \<le> (now mod 86400000) div 60000"
proof -
  define r where "r = now mod 86400000"
  define k where "k = r div 60000"
  have nowd: "now = (now div 86400000) * 86400000 + r" by (simp add: r_def)
  have rd: "r = k * 60000 + r mod 60000" by (simp add: k_def)
  have b: "0 \<le> r mod 60000" "r mod 60000 < 60000" by simp_all
  have "x * 60000 \<le> r \<longleftrightarrow> x \<le> k"
  proof
    assume "x * 60000 \<le> r"
    then show "x \<le> k" using rd b by linarith
  next
    assume "x \<le> k"
    then have "x * 60000 \<le> k * 60000" by simp
    then show "x * 60000 \<le> r" using rd b by linarith
  qed
  moreover have "(now div 86400000) * 86400000 + x * 60000 \<le> now \<longleftrightarrow> x * 60000 \<le> r"
    using nowd by linarith
  ultimately show ?thesis by (simp add: r_def k_def)
qed

lemma next_at_alt:
  "next_at now x = (if x \<le> (now mod 86400000) div 60000
      then (now div 86400000 + 1) * 86400000 + x * 60000
      else (now div 86400000) * 86400000 + x * 60000)"
proof -
  have "(now div 86400000) * 86400000 + x * 60000 + 86400000
      = (now div 86400000 + 1) * 86400000 + x * 60000" by (simp add: distrib_right)
  then show ?thesis by (simp only: next_at_def Let_def st_le_iff)
qed

lemma find_sorted_least:
  "sorted xs \<Longrightarrow> find P xs = Some x \<Longrightarrow> x \<in> set xs \<and> P x \<and> (\<forall>y\<in>set xs. P y \<longrightarrow> x \<le> y)"
  by (induction xs) (auto split: if_splits)

lemma next_at_mono_same_side:
  assumes "x \<le> y"
    "(x \<le> (now mod 86400000) div 60000) = (y \<le> (now mod 86400000) div 60000)"
  shows "next_at now x \<le> next_at now y"
  using assms by (auto simp: next_at_alt)

lemma next_at_props:
  fixes now x :: int
  assumes "0 \<le> x" "x < 1440"
  shows "now < next_at now x" "next_at now x mod 86400000 = x * 60000"
    "\<And>t'. now < t' \<Longrightarrow> t' mod 86400000 = x * 60000 \<Longrightarrow> next_at now x \<le> t'"
    "next_at now x div 86400000
       = (if (now mod 86400000) div 60000 < x then now div 86400000 else now div 86400000 + 1)"
    "next_at now x \<le> now + 86400000"
proof -
  have o: "0 \<le> x * 60000" "x * 60000 < 86400000" using assms by auto
  note pc = page_core[OF o, of now, folded next_at_def[unfolded Let_def]]
  show "now < next_at now x" by (rule pc(1))
  show "next_at now x mod 86400000 = x * 60000" by (rule pc(2))
  show "\<And>t'. now < t' \<Longrightarrow> t' mod 86400000 = x * 60000 \<Longrightarrow> next_at now x \<le> t'" by (rule pc(3))
  show "next_at now x div 86400000
       = (if (now mod 86400000) div 60000 < x then now div 86400000 else now div 86400000 + 1)"
    using pc(4) by (auto simp: st_le_iff)
  have "now + 86400000 \<in> {t'. now < t' \<and> True}" by simp
  have d: "(now div 86400000) * 86400000 \<le> now"
    by (metis mult.commute mult_div_mod_eq pos_mod_sign le_add_same_cancel1 zero_less_numeral)
  show "next_at now x \<le> now + 86400000"
    using d o by (simp add: next_at_def Let_def)
qed

lemma server_core:
  fixes now s :: int and ms :: "int list"
  assumes ne: "ms \<noteq> []" and rng: "\<forall>x\<in>set ms. 0 \<le> x \<and> x < 1440"
  defines "cur \<equiv> (now mod 86400000) div 60000"
  defines "res \<equiv> (case find (\<lambda>sm. sm > cur) (sort ms) of
                       Some sm \<Rightarrow> At ((now div 86400000) * 86400000 + sm * 60000 - s)
                     | None \<Rightarrow> (case sort ms of [] \<Rightarrow> NaN_entry
                                | f # _ \<Rightarrow> At ((now div 86400000 + 1) * 86400000 + f * 60000 - s)))"
  shows "\<exists>x\<in>set ms. res = At (next_at now x - s) \<and> (\<forall>y\<in>set ms. next_at now x \<le> next_at now y)"
proof (cases "find (\<lambda>sm. sm > cur) (sort ms)")
  case (Some sm)
  from find_sorted_least[OF _ Some] have sm: "sm \<in> set ms" "cur < sm"
    and least: "\<forall>y\<in>set ms. cur < y \<longrightarrow> sm \<le> y" by auto
  have r: "res = At (next_at now sm - s)"
    using Some sm by (simp add: res_def next_at_alt cur_def)
  have "next_at now sm \<le> next_at now y" if y: "y \<in> set ms" for y
  proof (cases "cur < y")
    case True
    then show ?thesis using least y sm by (intro next_at_mono_same_side) (auto simp: cur_def)
  next
    case False
    have "sm < 1440" "0 \<le> y" using rng sm y by auto
    then show ?thesis using False sm by (simp add: next_at_alt cur_def)
  qed
  then show ?thesis using r sm by blast
next
  case None
  then have all: "\<forall>y\<in>set ms. y \<le> cur" by (auto simp: find_None_iff)
  obtain f fs where s: "sort ms = f # fs" using ne by (cases "sort ms") (auto dest: arg_cong[where f=length])
  have f: "f \<in> set ms" by (metis list.set_intros(1) s set_sort)
  have fl: "\<forall>y\<in>set ms. f \<le> y"
    by (metis s set_sort sorted_sort sorted_simps(2) set_ConsD order_refl)
  have r: "res = At (next_at now f - s)"
    using None s all f by (simp add: res_def next_at_alt cur_def)
  have "next_at now f \<le> next_at now y" if y: "y \<in> set ms" for y
    using all y f fl by (intro next_at_mono_same_side) (auto simp: cur_def)
  then show ?thesis using r f by blast
qed

subsection \<open>The date operations where the offset does not change\<close>

lemma day_start_bounds:
  fixes a :: int
  shows "(a div 86400000) * 86400000 \<le> a" "a < (a div 86400000) * 86400000 + 86400000"
proof -
  have a: "a = (a div 86400000) * 86400000 + a mod 86400000" by simp
  have b: "0 \<le> a mod 86400000" "a mod 86400000 < 86400000" by simp_all
  show "(a div 86400000) * 86400000 \<le> a" using a b(1) by linarith
  show "a < (a div 86400000) * 86400000 + 86400000" using a b(2) by linarith
qed

lemma setHours_steady:
  assumes st: "steady_around tz now" and rg: "inside_Date_range now"
    and t: "now \<le> t" "t \<le> now + 86400000"
    and x: "0 \<le> h * 60 + m" "h * 60 + m < 1440"
  defines "s \<equiv> LocalTime tz now - now"
  shows "setHours tz t h m
       = Some (((t + s) div 86400000) * 86400000 + (h * 60 + m) * 60000 - s)"
proof -
  define u where "u = ((t + s) div 86400000) * 86400000 + (h * 60 + m) * 60000 - s"
  have lt: "LocalTime tz t = t + s"
    by (rule steady_window(1)[OF st, folded s_def]) (use t in linarith)+
  have x': "0 \<le> (h * 60 + m) * 60000" "(h * 60 + m) * 60000 < 86400000" using x by auto
  have ub: "t - 86400000 < u" "u < t + 86400000"
    using day_start_bounds[of "t + s"] x' by (simp_all add: u_def)
  have utc: "UTC tz (u + s) = u"
    by (rule steady_window(2)[OF st, folded s_def]) (use ub t in linarith)+
  have clip: "\<bar>u\<bar> \<le> 8640000000000000"
    using rg ub t by (simp add: inside_Date_range_def msPerDay_def)
  have hm: "h * 3600000 + m * 60000 = (h * 60 + m) * 60000" by (simp add: distrib_right)
  have arg: "(LocalTime tz t div msPerDay) * msPerDay + h * msPerHour + m * msPerMinute = u + s"
    using hm by (simp add: lt u_def msPerDay_def msPerHour_def msPerMinute_def)
  show ?thesis
    unfolding setHours_def arg utc using clip by (simp add: TimeClip_def u_def)
qed

lemma addDay_steady:
  assumes st: "steady_around tz now" and rg: "inside_Date_range now"
    and t: "now - 86400000 \<le> t" "t \<le> now + 86400000"
  shows "addDay tz t = Some (t + 86400000)"
proof -
  define s where "s = LocalTime tz now - now"
  have lt: "LocalTime tz t = t + s"
    by (rule steady_window(1)[OF st, folded s_def]) (use t in linarith)+
  have utc: "UTC tz (t + 86400000 + s) = t + 86400000"
    by (rule steady_window(2)[OF st, folded s_def]) (use t in linarith)+
  have clip: "\<bar>t + 86400000\<bar> \<le> 8640000000000000"
    using rg t by (simp add: inside_Date_range_def msPerDay_def)
  have arg: "LocalTime tz t + msPerDay = t + 86400000 + s" by (simp add: lt msPerDay_def)
  show ?thesis
    unfolding addDay_def arg utc using clip by (simp add: TimeClip_def)
qed

lemma scheduledTime_for_next_at:
  assumes st: "steady_around tz now" and rg: "inside_Date_range now"
    and p: "parse_time time = Some (h, m)"
    and x: "0 \<le> h * 60 + m" "h * 60 + m < 1440"
  shows "scheduledTime_for tz now time
       = Some (next_at (LocalTime tz now) (h * 60 + m) - (LocalTime tz now - now))"
proof -
  define s where "s = LocalTime tz now - now"
  define u where "u = ((now + s) div 86400000) * 86400000 + (h * 60 + m) * 60000"
  have l: "LocalTime tz now = now + s" by (simp add: s_def)
  have sh: "setHours tz now h m = Some (u - s)"
    using setHours_steady[OF st rg _ _ x, of now] by (simp add: u_def s_def)
  have x': "0 \<le> (h * 60 + m) * 60000" using x by auto
  have lo: "now - 86400000 \<le> u - s"
    using day_start_bounds(2)[of "now + s"] x' by (simp add: u_def)
  have ad: "addDay tz (u - s) = Some (u - s + 86400000)" if "u - s \<le> now"
    by (rule addDay_steady[OF st rg lo]) (use that in linarith)
  have na: "next_at (now + s) (h * 60 + m) = (if u \<le> now + s then u + 86400000 else u)"
    by (simp add: next_at_def Let_def u_def)
  show ?thesis
  proof (cases "u - s \<le> now")
    case True
    then have "u \<le> now + s" by linarith
    then show ?thesis
      using True ad by (simp add: scheduledTime_for_def p sh l na flip: s_def)
  next
    case False
    then have "\<not> u \<le> now + s" by linarith
    then show ?thesis
      using False by (simp add: scheduledTime_for_def p sh l na flip: s_def)
  qed
qed

lemma next_at_local:
  assumes st: "steady_around tz now"
    and x: "0 \<le> x" "x < 1440"
  defines "t \<equiv> next_at (LocalTime tz now) x - (LocalTime tz now - now)"
  shows "now < t" "LocalTime tz t = next_at (LocalTime tz now) x"
    "\<And>t'. now < t' \<Longrightarrow> LocalTime tz t' mod 86400000 = x * 60000 \<Longrightarrow> t \<le> t'"
proof -
  define s where "s = LocalTime tz now - now"
  have l: "LocalTime tz now = now + s" by (simp add: s_def)
  note np = next_at_props[OF x, of "now + s"]
  have t: "t = next_at (now + s) x - s" unfolding t_def s_def by simp
  show gt: "now < t" using np(1) by (simp add: t)
  have le: "t \<le> now + 86400000" using np(5) by (simp add: t)
  have "LocalTime tz t = t + s"
    by (rule steady_window(1)[OF st, folded s_def]) (use gt le in linarith)+
  then show "LocalTime tz t = next_at (LocalTime tz now) x" unfolding l by (simp add: t)
  fix t' assume gt': "now < t'" and o: "LocalTime tz t' mod 86400000 = x * 60000"
  show "t \<le> t'"
  proof (cases "t' < t")
    case True
    have "LocalTime tz t' = t' + s"
      by (rule steady_window(1)[OF st, folded s_def]) (use gt' True le in linarith)+
    then have "(t' + s) mod 86400000 = x * 60000" using o by simp
    moreover have "now + s < t' + s" using gt' by simp
    ultimately have "next_at (now + s) x \<le> t' + s" by (rule np(3)[rotated])
    then show ?thesis by (simp add: t)
  next
    case False
    then show ?thesis by simp
  qed
qed

lemma occurrence_iff:
  "is_occurrence tz h m t \<longleftrightarrow> LocalTime tz t mod 86400000 = (int h * 60 + int m) * 60000"
proof -
  have "int h * 3600000 + int m * 60000 = (int h * 60 + int m) * 60000"
    by (simp add: distrib_right)
  then show ?thesis
    by (simp only: is_occurrence_def msPerDay_def msPerHour_def msPerMinute_def)
qed

lemma entry_steady:
  assumes st: "steady_around tz now" and rg: "inside_Date_range now"
    and hm: "h < 24" "m < 60"
  shows "\<exists>t. scheduledTime_for tz now (HH_MM h m) = Some t \<and> now < t \<and> is_occurrence tz h m t
          \<and> (\<forall>t'. now < t' \<and> is_occurrence tz h m t' \<longrightarrow> t \<le> t')
          \<and> day_of tz t = (if minute_of_day tz now < int (60 * h + m)
                           then day_of tz now else day_of tz now + 1)"
proof -
  define x where "x = int h * 60 + int m"
  have x: "0 \<le> x" "x < 1440" using hm by (simp_all add: x_def)
  define t where "t = next_at (LocalTime tz now) x - (LocalTime tz now - now)"
  note nl = next_at_local[OF st x, folded t_def]
  note np = next_at_props[OF x, of "LocalTime tz now"]
  have sch: "scheduledTime_for tz now (HH_MM h m) = Some t"
    using scheduledTime_for_next_at[OF st rg parse_HH_MM[OF hm]] x by (simp add: x_def t_def)
  have occ: "is_occurrence tz h m t"
    unfolding occurrence_iff nl(2) using np(2) by (simp add: x_def)
  have least: "\<forall>t'. now < t' \<and> is_occurrence tz h m t' \<longrightarrow> t \<le> t'"
    unfolding occurrence_iff using nl(3) by (simp add: x_def)
  have xi: "int (60 * h + m) = x" by (simp add: x_def)
  have day: "day_of tz t = (if minute_of_day tz now < int (60 * h + m)
                           then day_of tz now else day_of tz now + 1)"
    unfolding xi using np(4)
    by (simp add: day_of_def minute_of_day_def nl(2) msPerDay_def msPerMinute_def)
  show ?thesis using sch nl(1) occ least day by blast
qed

subsection \<open>The schedule as a whole\<close>

lemma those_minutes_HH_MM:
  assumes "list_all (\<lambda>hm. fst hm < 24 \<and> snd hm < 60) hms"
  shows "those_minutes (map (\<lambda>hm. HH_MM (fst hm) (snd hm)) hms)
       = Some (map (\<lambda>hm. int (fst hm) * 60 + int (snd hm)) hms)"
  using assms by (induction hms) (simp_all add: minutes_since_midnight_def parse_HH_MM)

lemma current_minute:
  "getHours tz now * 60 + getMinutes tz now = (LocalTime tz now mod 86400000) div 60000"
  using hours_minutes_eq[of "LocalTime tz now mod 86400000"]
  by (simp add: getHours_def getMinutes_def msPerDay_def msPerHour_def msPerMinute_def)

lemma calc_formula:
  assumes st: "steady_around tz now" and rg: "inside_Date_range now"
    and tm: "those_minutes entries = Some ms" and ne: "entries \<noteq> []"
    and rng: "\<forall>x\<in>set ms. 0 \<le> x \<and> x < 1440"
  defines "L \<equiv> LocalTime tz now"
  shows "calculateNextNotificationTime tz now entries
       = (case find (\<lambda>sm. sm > (L mod 86400000) div 60000) (sort ms) of
            Some sm \<Rightarrow> At ((L div 86400000) * 86400000 + sm * 60000 - (L - now))
          | None \<Rightarrow> (case sort ms of [] \<Rightarrow> NaN_entry
                     | f # _ \<Rightarrow> At ((L div 86400000 + 1) * 86400000 + f * 60000 - (L - now))))"
proof -
  define s where "s = L - now"
  have l: "now + s = L" by (simp add: s_def)
  have e: "(x div 60) * 60 + x mod 60 = x" for x :: int by simp
  have today: "setHours tz now (x div 60) (x mod 60)
             = Some ((L div 86400000) * 86400000 + x * 60000 - s)" if "x \<in> set ms" for x
    using setHours_steady[OF st rg, of now "x div 60" "x mod 60"] rng that
    by (simp only: e l s_def L_def) simp
  have ad: "addDay tz now = Some (now + 86400000)"
    by (rule addDay_steady[OF st rg]) simp_all
  have "now + 86400000 + s = L + 86400000" using l by linarith
  then have dd: "(now + 86400000 + s) div 86400000 = L div 86400000 + 1" by simp
  have tomorrow: "setHours tz (now + 86400000) (x div 60) (x mod 60)
             = Some ((L div 86400000 + 1) * 86400000 + x * 60000 - s)" if "x \<in> set ms" for x
    using setHours_steady[OF st rg, of "now + 86400000" "x div 60" "x mod 60"] rng that
    by (simp only: e dd[unfolded s_def L_def] s_def L_def)
  let ?cur = "(L mod 86400000) div 60000"
  have c: "calculateNextNotificationTime tz now entries
       = (case find (\<lambda>sm. sm > ?cur) (sort ms) of
            Some sm \<Rightarrow> date_result (setHours tz now (sm div 60) (sm mod 60))
          | None \<Rightarrow> (case sort ms of [] \<Rightarrow> NaN_entry
                     | f # _ \<Rightarrow> date_result (setHours tz (now + 86400000) (f div 60) (f mod 60))))"
    using ne tm ad
    by (simp add: calculateNextNotificationTime_def Let_def current_minute L_def
        del: those_minutes.simps split: option.splits list.splits)
  show ?thesis
  proof (cases "find (\<lambda>sm. sm > ?cur) (sort ms)")
    case None
    show ?thesis
    proof (cases "sort ms")
      case Nil
      then show ?thesis using None c by (simp add: s_def)
    next
      case (Cons f fs)
      then have "f \<in> set ms" by (metis list.set_intros(1) set_sort)
      then show ?thesis using None Cons c tomorrow by (simp add: date_result_def s_def)
    qed
  next
    case (Some sm)
    then have "sm \<in> set ms" by (metis find_Some_iff nth_mem set_sort)
    then show ?thesis using Some c today by (simp add: date_result_def s_def)
  qed
qed

lemma calc_steady:
  assumes st: "steady_around tz now" and rg: "inside_Date_range now"
    and ne: "hms \<noteq> []" and v: "list_all (\<lambda>hm. fst hm < 24 \<and> snd hm < 60) hms"
  shows "\<exists>t. calculateNextNotificationTime tz now (map (\<lambda>hm. HH_MM (fst hm) (snd hm)) hms) = At t
           \<and> now < t
           \<and> (\<exists>hm\<in>set hms. is_occurrence tz (fst hm) (snd hm) t)
           \<and> (\<forall>hm\<in>set hms. \<forall>t'. now < t' \<and> is_occurrence tz (fst hm) (snd hm) t' \<longrightarrow> t \<le> t')"
proof -
  define ms where "ms = map (\<lambda>hm. int (fst hm) * 60 + int (snd hm)) hms"
  define L where "L = LocalTime tz now"
  have rng: "\<forall>x\<in>set ms. 0 \<le> x \<and> x < 1440"
    using v by (auto simp: ms_def list_all_iff)
  have mne: "ms \<noteq> []" using ne by (simp add: ms_def)
  have ene: "map (\<lambda>hm. HH_MM (fst hm) (snd hm)) hms \<noteq> []" using ne by simp
  note cf = calc_formula[OF st rg those_minutes_HH_MM[OF v] ene rng[unfolded ms_def],
      folded ms_def L_def]
  from server_core[OF mne rng, of L "L - now"] obtain x where x: "x \<in> set ms"
    and res: "calculateNextNotificationTime tz now (map (\<lambda>hm. HH_MM (fst hm) (snd hm)) hms)
                = At (next_at L x - (L - now))"
    and least: "\<forall>y\<in>set ms. next_at L x \<le> next_at L y"
    unfolding cf by blast
  have xr: "0 \<le> x" "x < 1440" using rng x by auto
  from x obtain hm where hm: "hm \<in> set hms" "x = int (fst hm) * 60 + int (snd hm)"
    by (auto simp: ms_def)
  define t where "t = next_at L x - (L - now)"
  have gt: "now < t" using next_at_local(1)[OF st xr] by (simp add: L_def t_def)
  have lt: "LocalTime tz t = next_at L x"
    using next_at_local(2)[OF st xr] by (simp add: L_def t_def)
  have occ: "is_occurrence tz (fst hm) (snd hm) t"
    using next_at_props(2)[OF xr, of L] by (simp only: occurrence_iff lt hm(2))
  have min: "t \<le> t'"
    if hm': "hm' \<in> set hms" and gt: "now < t'" and o: "is_occurrence tz (fst hm') (snd hm') t'"
    for hm' t'
  proof -
    define y where "y = int (fst hm') * 60 + int (snd hm')"
    have ym: "y \<in> set ms" using hm' by (auto simp: ms_def y_def)
    have yr: "0 \<le> y" "y < 1440" using rng ym by auto
    have "LocalTime tz t' mod 86400000 = y * 60000" using o by (simp add: occurrence_iff y_def)
    from next_at_local(3)[OF st yr gt this]
    have "next_at L y - (L - now) \<le> t'" by (simp add: L_def)
    moreover have "next_at L x \<le> next_at L y" using least ym by simp
    ultimately show ?thesis by (simp add: t_def)
  qed
  have res': "calculateNextNotificationTime tz now (map (\<lambda>hm. HH_MM (fst hm) (snd hm)) hms) = At t"
    using res by (simp add: t_def)
  show ?thesis
    using res' gt hm(1) occ min by blast
qed

subsection \<open>The example of the specification\<close>

lemma example_entries:
  "HH_MM 9 0 = ''09:00''" "HH_MM 14 0 = ''14:00''" "HH_MM 20 0 = ''20:00''"
  by (simp_all add: HH_MM_def digit_char_def)

lemma example_1430:
  fixes d r :: int
  assumes st: "steady_around tz now" and rg: "inside_Date_range now"
    and r: "0 \<le> r" "r < msPerMinute"
    and l: "LocalTime tz now = d * msPerDay + 14 * msPerHour + 30 * msPerMinute + r"
  shows "map (map_option (LocalTime tz)) (map (scheduledTime_for tz now) [''09:00'', ''14:00'', ''20:00''])
       = [Some ((d + 1) * msPerDay + 9 * msPerHour), Some ((d + 1) * msPerDay + 14 * msPerHour),
          Some (d * msPerDay + 20 * msPerHour)]"
    "\<exists>t. calculateNextNotificationTime tz now [''09:00'', ''14:00'', ''20:00''] = At t
        \<and> LocalTime tz t = d * msPerDay + 20 * msPerHour"
proof -
  define L where "L = LocalTime tz now"
  have n: "L = d * 86400000 + (52200000 + r)"
    by (simp add: L_def l msPerDay_def msPerHour_def msPerMinute_def)
  have r': "0 \<le> r" "r < 60000" using r by (simp_all add: msPerMinute_def)
  have dv: "L div 86400000 = d" unfolding n using r' by simp
  have md: "L mod 86400000 = 52200000 + r" unfolding n using r' by simp
  have mo: "(L mod 86400000) div 60000 = 870" unfolding md using r' by simp
  have na: "next_at L 540 = (d + 1) * 86400000 + 32400000"
    "next_at L 840 = (d + 1) * 86400000 + 50400000"
    "next_at L 1200 = d * 86400000 + 72000000"
    by (simp_all add: next_at_alt mo dv)
  have p: "parse_time ''09:00'' = Some (9, 0)" "parse_time ''14:00'' = Some (14, 0)"
    "parse_time ''20:00'' = Some (20, 0)"
    using parse_HH_MM[of 9 0] parse_HH_MM[of 14 0] parse_HH_MM[of 20 0]
    by (simp_all add: example_entries)
  define t1 where "t1 = next_at L 540 - (L - now)"
  define t2 where "t2 = next_at L 840 - (L - now)"
  define t3 where "t3 = next_at L 1200 - (L - now)"
  have s1: "scheduledTime_for tz now ''09:00'' = Some t1"
    using scheduledTime_for_next_at[OF st rg p(1)] by (simp add: L_def t1_def)
  have s2: "scheduledTime_for tz now ''14:00'' = Some t2"
    using scheduledTime_for_next_at[OF st rg p(2)] by (simp add: L_def t2_def)
  have s3: "scheduledTime_for tz now ''20:00'' = Some t3"
    using scheduledTime_for_next_at[OF st rg p(3)] by (simp add: L_def t3_def)
  have l1: "LocalTime tz t1 = (d + 1) * msPerDay + 9 * msPerHour"
    using next_at_local(2)[OF st, of 540] na(1) by (simp add: L_def t1_def msPerDay_def msPerHour_def)
  have l2: "LocalTime tz t2 = (d + 1) * msPerDay + 14 * msPerHour"
    using next_at_local(2)[OF st, of 840] na(2) by (simp add: L_def t2_def msPerDay_def msPerHour_def)
  have l3: "LocalTime tz t3 = d * msPerDay + 20 * msPerHour"
    using next_at_local(2)[OF st, of 1200] na(3) by (simp add: L_def t3_def msPerDay_def msPerHour_def)
  show "map (map_option (LocalTime tz)) (map (scheduledTime_for tz now) [''09:00'', ''14:00'', ''20:00''])
       = [Some ((d + 1) * msPerDay + 9 * msPerHour), Some ((d + 1) * msPerDay + 14 * msPerHour),
          Some (d * msPerDay + 20 * msPerHour)]"
    by (simp only: list.map option.map s1 s2 s3 l1 l2 l3)
  have tm: "those_minutes [''09:00'', ''14:00'', ''20:00''] = Some [540, 840, 1200]"
    by (simp add: minutes_since_midnight_def p)
  have rng: "\<forall>x\<in>set [540, 840, 1200::int]. 0 \<le> x \<and> x < 1440" by simp
  have "calculateNextNotificationTime tz now [''09:00'', ''14:00'', ''20:00'']
      = At (d * 86400000 + 1200 * 60000 - (L - now))"
    unfolding calc_formula[OF st rg tm _ rng, folded L_def, simplified] by (simp add: mo dv)
  moreover have "d * 86400000 + 1200 * 60000 - (L - now) = t3"
    by (simp add: na t3_def)
  ultimately have "calculateNextNotificationTime tz now [''09:00'', ''14:00'', ''20:00''] = At t3"
    by simp
  then show "\<exists>t. calculateNextNotificationTime tz now [''09:00'', ''14:00'', ''20:00''] = At t
        \<and> LocalTime tz t = d * msPerDay + 20 * msPerHour"
    using l3 by blast
qed

text \<open>
  Claim C1 fails on the night the clocks go forward. In Berlin on 29 March 2026 at
  01:00 local time the entry \<open>02:30\<close> is scheduled, by the page and by the route
  and the worker alike, for the instant 01:30 UTC, at which the local clock reads
  03:30: \<open>setHours\<close> reads the skipped time \<open>02:30\<close> with the offset in effect
  before the transition. It is not an occurrence of the entry; the first occurrence
  of 02:30 after now is on 30 March.
\<close>

theorem skipped_hour_entry_is_scheduled_off_the_entry:
  "HH_MM 2 30 = ''02:30''
   \<and> LocalTime Europe_Berlin_2026 1774742400000 = 20541 * msPerDay + 1 * msPerHour
   \<and> scheduledTime_for Europe_Berlin_2026 1774742400000 ''02:30'' = Some 1774747800000
   \<and> calculateNextNotificationTime Europe_Berlin_2026 1774742400000 [''02:30'']
        = At 1774747800000
   \<and> \<not> is_occurrence Europe_Berlin_2026 2 30 1774747800000
   \<and> is_occurrence Europe_Berlin_2026 3 30 1774747800000
   \<and> is_occurrence Europe_Berlin_2026 2 30 1774830600000"
proof -
  have e: "HH_MM 2 30 = ''02:30''" by (simp add: HH_MM_def digit_char_def)
  have p: "parse_time ''02:30'' = Some (2, 30)" using parse_HH_MM[of 2 30] by (simp add: e)
  have l: "LocalTime Europe_Berlin_2026 1774742400000 = 20541 * msPerDay + 1 * msPerHour"
    by (simp add: LocalTime_def Europe_Berlin_2026_def msPerDay_def msPerHour_def)
  have s: "scheduledTime_for Europe_Berlin_2026 1774742400000 ''02:30'' = Some 1774747800000"
    by (simp add: scheduledTime_for_def p setHours_def addDay_def TimeClip_def UTC_def
        LocalTime_def Europe_Berlin_2026_def msPerDay_def msPerHour_def msPerMinute_def)
  have c: "calculateNextNotificationTime Europe_Berlin_2026 1774742400000 [''02:30'']
        = At 1774747800000"
    by (simp add: calculateNextNotificationTime_def minutes_since_midnight_def p Let_def
        getHours_def getMinutes_def date_result_def setHours_def addDay_def TimeClip_def UTC_def
        LocalTime_def Europe_Berlin_2026_def msPerDay_def msPerHour_def msPerMinute_def)
  have o: "\<not> is_occurrence Europe_Berlin_2026 2 30 1774747800000"
    "is_occurrence Europe_Berlin_2026 3 30 1774747800000"
    "is_occurrence Europe_Berlin_2026 2 30 1774830600000"
    by (simp_all add: is_occurrence_def LocalTime_def Europe_Berlin_2026_def msPerDay_def
        msPerHour_def msPerMinute_def)
  show ?thesis using e l s c o by blast
qed

text \<open>
  Claim C1, amended. Take an instant \<open>now\<close> near which the offset of the local time
  zone does not change (no transition within three days) and which is two days or
  more inside the range of \<open>Date\<close>. For an entry \<open>HH:MM\<close> the time the page computes
  (\<open>scheduleNotificationForTime\<close>) is the least instant after \<open>now\<close> at which the
  local clock reads \<open>HH:MM:00.000\<close>: on the same local calendar day when the entry's
  minute of the day exceeds the current one, on the following day otherwise. The time
  the route and the worker compute (\<open>calculateNextNotificationTime\<close>) is the least
  such instant over all entries of the schedule. When the local clock reads 14:30 (any
  second of that minute, on the local day \<open>d\<close>) the entries 09:00, 14:00 and 20:00
  give tomorrow 09:00, tomorrow 14:00 and today 20:00, and the schedule as a whole
  gives today 20:00.
\<close>

theorem next_occurrence_least_later:
  fixes now d r :: int
  shows
    "(steady_around tz now \<and> inside_Date_range now \<and> h < 24 \<and> m < 60 \<longrightarrow>
        (\<exists>t. scheduledTime_for tz now (HH_MM h m) = Some t \<and> now < t \<and> is_occurrence tz h m t
           \<and> (\<forall>t'. now < t' \<and> is_occurrence tz h m t' \<longrightarrow> t \<le> t')
           \<and> day_of tz t = (if minute_of_day tz now < int (60 * h + m)
                            then day_of tz now else day_of tz now + 1)))
     \<and> (steady_around tz now \<and> inside_Date_range now \<and> hms \<noteq> []
          \<and> list_all (\<lambda>hm. fst hm < 24 \<and> snd hm < 60) hms \<longrightarrow>
        (\<exists>t. calculateNextNotificationTime tz now (map (\<lambda>hm. HH_MM (fst hm) (snd hm)) hms) = At t
           \<and> now < t
           \<and> (\<exists>hm\<in>set hms. is_occurrence tz (fst hm) (snd hm) t)
           \<and> (\<forall>hm\<in>set hms. \<forall>t'. now < t' \<and> is_occurrence tz (fst hm) (snd hm) t' \<longrightarrow> t \<le> t')))
     \<and> (steady_around tz now \<and> inside_Date_range now \<and> 0 \<le> r \<and> r < msPerMinute
          \<and> LocalTime tz now = d * msPerDay + 14 * msPerHour + 30 * msPerMinute + r \<longrightarrow>
        map (map_option (LocalTime tz))
            (map (scheduledTime_for tz now) [''09:00'', ''14:00'', ''20:00''])
          = [Some ((d + 1) * msPerDay + 9 * msPerHour), Some ((d + 1) * msPerDay + 14 * msPerHour),
             Some (d * msPerDay + 20 * msPerHour)]
        \<and> (\<exists>t. calculateNextNotificationTime tz now [''09:00'', ''14:00'', ''20:00''] = At t
               \<and> LocalTime tz t = d * msPerDay + 20 * msPerHour))"
proof (intro conjI impI)
  assume "steady_around tz now \<and> inside_Date_range now \<and> h < 24 \<and> m < 60"
  then show "\<exists>t. scheduledTime_for tz now (HH_MM h m) = Some t \<and> now < t \<and> is_occurrence tz h m t
           \<and> (\<forall>t'. now < t' \<and> is_occurrence tz h m t' \<longrightarrow> t \<le> t')
           \<and> day_of tz t = (if minute_of_day tz now < int (60 * h + m)
                            then day_of tz now else day_of tz now + 1)"
    using entry_steady by blast
next
  assume "steady_around tz now \<and> inside_Date_range now \<and> hms \<noteq> []
          \<and> list_all (\<lambda>hm. fst hm < 24 \<and> snd hm < 60) hms"
  then show "\<exists>t. calculateNextNotificationTime tz now (map (\<lambda>hm. HH_MM (fst hm) (snd hm)) hms) = At t
           \<and> now < t
           \<and> (\<exists>hm\<in>set hms. is_occurrence tz (fst hm) (snd hm) t)
           \<and> (\<forall>hm\<in>set hms. \<forall>t'. now < t' \<and> is_occurrence tz (fst hm) (snd hm) t' \<longrightarrow> t \<le> t')"
    using calc_steady by blast
next
  assume "steady_around tz now \<and> inside_Date_range now \<and> 0 \<le> r \<and> r < msPerMinute
          \<and> LocalTime tz now = d * msPerDay + 14 * msPerHour + 30 * msPerMinute + r"
  then show "map (map_option (LocalTime tz))
            (map (scheduledTime_for tz now) [''09:00'', ''14:00'', ''20:00''])
          = [Some ((d + 1) * msPerDay + 9 * msPerHour), Some ((d + 1) * msPerDay + 14 * msPerHour),
             Some (d * msPerDay + 20 * msPerHour)]"
    using example_1430(1) by blast
next
  assume "steady_around tz now \<and> inside_Date_range now \<and> 0 \<le> r \<and> r < msPerMinute
          \<and> LocalTime tz now = d * msPerDay + 14 * msPerHour + 30 * msPerMinute + r"
  then show "\<exists>t. calculateNextNotificationTime tz now [''09:00'', ''14:00'', ''20:00''] = At t
               \<and> LocalTime tz t = d * msPerDay + 20 * msPerHour"
    using example_1430(2) by blast
qed

text \<open>
  The theorem in Berlin on 1 July 2026 at 14:30 local time (12:30 UTC), for the entry
  20:00 and the schedule of the example.
\<close>

theorem next_occurrence_least_later_witness:
  "steady_around Europe_Berlin_2026 1782909000000
   \<and> inside_Date_range 1782909000000
   \<and> LocalTime Europe_Berlin_2026 1782909000000
        = 20635 * msPerDay + 14 * msPerHour + 30 * msPerMinute + 0
   \<and> (\<exists>t. scheduledTime_for Europe_Berlin_2026 1782909000000 (HH_MM 20 0) = Some t
          \<and> 1782909000000 < t \<and> is_occurrence Europe_Berlin_2026 20 0 t)
   \<and> (\<exists>t. calculateNextNotificationTime Europe_Berlin_2026 1782909000000
            (map (\<lambda>hm. HH_MM (fst hm) (snd hm)) [(9, 0), (14, 0), (20, 0)]) = At t
          \<and> 1782909000000 < t)
   \<and> map (map_option (LocalTime Europe_Berlin_2026))
        (map (scheduledTime_for Europe_Berlin_2026 1782909000000) [''09:00'', ''14:00'', ''20:00''])
        = [Some 1782982800000, Some 1783000800000, Some 1782936000000]"
proof -
  let ?tz = "Europe_Berlin_2026"
  let ?now = "1782909000000 :: int"
  have st: "steady_around ?tz ?now"
    by (simp add: steady_around_def Europe_Berlin_2026_def msPerDay_def)
  have rg: "inside_Date_range ?now" by (simp add: inside_Date_range_def msPerDay_def)
  have l: "LocalTime ?tz ?now = 20635 * msPerDay + 14 * msPerHour + 30 * msPerMinute + 0"
    by (simp add: LocalTime_def Europe_Berlin_2026_def msPerDay_def msPerHour_def msPerMinute_def)
  have v: "(20::nat) < 24 \<and> (0::nat) < 60"
    "[(9, 0), (14, 0), (20::nat, 0::nat)] \<noteq> []
     \<and> list_all (\<lambda>hm. fst hm < 24 \<and> snd hm < 60) [(9, 0), (14, 0), (20::nat, 0::nat)]"
    "(0::int) \<le> 0 \<and> (0::int) < msPerMinute"
    by (simp_all add: msPerMinute_def)
  note t = next_occurrence_least_later[of ?tz ?now 20 0 "[(9, 0), (14, 0), (20, 0)]" 0 20635]
  from t st rg v(1) obtain t1 where t1: "scheduledTime_for ?tz ?now (HH_MM 20 0) = Some t1"
    "?now < t1" "is_occurrence ?tz 20 0 t1" by blast
  from t st rg v(2) obtain t2 where t2: "calculateNextNotificationTime ?tz ?now
            (map (\<lambda>hm. HH_MM (fst hm) (snd hm)) [(9, 0), (14, 0), (20, 0)]) = At t2"
    "?now < t2" by blast
  from t st rg v(3) l have "map (map_option (LocalTime ?tz))
            (map (scheduledTime_for ?tz ?now) [''09:00'', ''14:00'', ''20:00''])
          = [Some ((20635 + 1) * msPerDay + 9 * msPerHour), Some ((20635 + 1) * msPerDay + 14 * msPerHour),
             Some (20635 * msPerDay + 20 * msPerHour)]" by blast
  then have m: "map (map_option (LocalTime ?tz))
        (map (scheduledTime_for ?tz ?now) [''09:00'', ''14:00'', ''20:00''])
        = [Some 1782982800000, Some 1783000800000, Some 1782936000000]"
    by (simp add: msPerDay_def msPerHour_def)
  show ?thesis using st rg l t1 t2 m by blast
qed

section \<open>Page size: proofs\<close>

lemma toString_nat_digits: "list_all (is_digit_in 10) (Number_toString_nat n)"
proof (induction n rule: Number_toString_nat.induct)
  case (1 n)
  have d: "is_digit_in 10 (char_of (48 + k))" if "k < 10" for k :: nat
    using that by (simp add: is_digit_in_def digit_value_def Let_def)
  show ?case
  proof (cases "n < 10")
    case True
    then show ?thesis by (subst Number_toString_nat.simps) (simp add: d)
  next
    case False
    then show ?thesis using 1 by (subst Number_toString_nat.simps) (simp add: d)
  qed
qed

lemma digits_value_snoc:
  "digits_value R (ds @ [c]) = digits_value R ds * R + (case digit_value c of None \<Rightarrow> 0 | Some d \<Rightarrow> d)"
  by (simp add: digits_value_def)

lemma digit_value_char_of: "k < 10 \<Longrightarrow> digit_value (char_of (48 + k)) = Some k"
  by (simp add: digit_value_def Let_def)

lemma toString_nat_value: "digits_value 10 (Number_toString_nat n) = n"
proof (induction n rule: Number_toString_nat.induct)
  case (1 n)
  show ?case
  proof (cases "n < 10")
    case True
    then show ?thesis
      by (subst Number_toString_nat.simps) (simp add: digits_value_def digit_value_char_of)
  next
    case False
    then have "digits_value 10 (Number_toString_nat (n div 10)) = n div 10" using 1 by simp
    then show ?thesis using False
      by (subst Number_toString_nat.simps) (simp add: digits_value_snoc digit_value_char_of)
  qed
qed

lemma toString_nat_nonempty: "Number_toString_nat n \<noteq> []"
  by (subst Number_toString_nat.simps) simp

lemma digit_not_special:
  "is_digit_in 10 c \<Longrightarrow>
     \<not> is_space c \<and> c \<noteq> CHR ''+'' \<and> c \<noteq> CHR ''-'' \<and> c \<noteq> CHR ''x'' \<and> c \<noteq> CHR ''X''"
  by (auto simp: is_digit_in_def digit_value_def is_space_def Let_def split: if_splits)

lemma parseInt_digits:
  assumes "ds \<noteq> []" "list_all (is_digit_in 10) ds"
  shows "parseInt ds = Some (int (digits_value 10 ds))"
proof -
  obtain c cs where ds: "ds = c # cs" using assms(1) by (cases ds) auto
  have c: "is_digit_in 10 c" and cs: "list_all (is_digit_in 10) cs" using assms(2) ds by auto
  have nohex: "\<not> prefix ''0x'' ds" "\<not> prefix ''0X'' ds"
    using cs ds digit_not_special by (cases cs; auto)+
  have tw: "takeWhile (is_digit_in 10) ds = ds"
    using assms(2) by (simp add: list_all_iff)
  have dw: "dropWhile is_space ds = ds" using c ds digit_not_special by simp
  have h: "hd ds \<noteq> CHR ''+''" "hd ds \<noteq> CHR ''-''" using c ds digit_not_special by auto
  show ?thesis
    by (simp add: parseInt_def Let_def nohex tw dw h assms(1))
qed

lemma parseInt_neg_digits:
  assumes "ds \<noteq> []" "list_all (is_digit_in 10) ds"
  shows "parseInt (CHR ''-'' # ds) = Some (- int (digits_value 10 ds))"
proof -
  obtain c cs where ds: "ds = c # cs" using assms(1) by (cases ds) auto
  have c: "is_digit_in 10 c" and cs: "list_all (is_digit_in 10) cs" using assms(2) ds by auto
  have nohex: "\<not> prefix ''0x'' ds" "\<not> prefix ''0X'' ds"
    using cs ds digit_not_special by (cases cs; auto)+
  have tw: "takeWhile (is_digit_in 10) ds = ds"
    using assms(2) by (simp add: list_all_iff)
  have sp: "\<not> is_space CHR ''-''" by (simp add: is_space_def)
  show ?thesis
    by (simp add: parseInt_def Let_def nohex tw sp assms(1))
qed

lemma parseInt_toString: "parseInt (Number_toString n) = Some n"
proof (cases "n < 0")
  case True
  then show ?thesis
    using parseInt_neg_digits[OF toString_nat_nonempty toString_nat_digits, of "nat (- n)"]
    by (simp add: Number_toString_def toString_nat_value)
next
  case False
  then show ?thesis
    using parseInt_digits[OF toString_nat_nonempty toString_nat_digits, of "nat n"]
    by (simp add: Number_toString_def toString_nat_value)
qed

lemma toString_nonempty: "Number_toString n \<noteq> []"
  by (simp add: Number_toString_def toString_nat_nonempty)

lemma GET_pageSize_parsed:
  assumes "s \<noteq> []"
  shows "GET_pageSize (Some s) =
     (case parseInt s of None \<Rightarrow> 10 | Some v \<Rightarrow> if v = 0 then 10 else clamp_1_100 v)"
  using assms by (simp add: GET_pageSize_def clamp_1_100_def Let_def split: option.splits)

lemma parseInt_10: "parseInt ''10'' = Some 10"
  by code_simp

lemma GET_pageSize_default: "GET_pageSize None = 10" "GET_pageSize (Some []) = 10"
  by (simp_all add: GET_pageSize_def parseInt_10)

lemma GET_pageSize_range: "1 \<le> GET_pageSize p \<and> GET_pageSize p \<le> 100"
  by (simp add: GET_pageSize_def Let_def)

text \<open>
  Claim C9, as stated, fails at \<open>pageSize=0\<close>: the supplied integer \<open>0\<close> clamped into
  \<open>[1,100]\<close> is \<open>1\<close>, and the route uses \<open>10\<close>, because \<open>parseInt("0") || 10\<close> is
  \<open>10\<close>.
\<close>

theorem pageSize_zero_not_clamped:
  "GET_pageSize (Some ''0'') = 10 \<and> clamp_1_100 0 = 1 \<and> GET_pageSize (Some ''0'') \<noteq> clamp_1_100 0"
  by code_simp

text \<open>
  Claim C9, amended. The effective page size is \<open>10\<close> when the parameter is absent or
  empty, when \<open>parseInt\<close> reads no integer from it, or when the integer read is \<open>0\<close>;
  otherwise it is the integer read, clamped into \<open>[1,100]\<close>. For the decimal numeral of
  an integer \<open>n\<close> the integer read is \<open>n\<close>. The result always lies in \<open>[1,100]\<close>, and
  \<open>pageSize=500\<close> gives the same page size as \<open>pageSize=100\<close>.
\<close>

theorem pageSize_default_or_clamped:
  "GET_pageSize None = 10
   \<and> GET_pageSize (Some []) = 10
   \<and> (parseInt s = None \<longrightarrow> GET_pageSize (Some s) = 10)
   \<and> (s \<noteq> [] \<and> parseInt s = Some v \<longrightarrow>
        GET_pageSize (Some s) = (if v = 0 then 10 else clamp_1_100 v))
   \<and> GET_pageSize (Some (Number_toString n)) = (if n = 0 then 10 else clamp_1_100 n)
   \<and> 1 \<le> GET_pageSize p \<and> GET_pageSize p \<le> 100
   \<and> GET_pageSize (Some ''500'') = 100
   \<and> GET_pageSize (Some ''500'') = GET_pageSize (Some ''100'')"
proof -
  have a: "parseInt s = None \<longrightarrow> GET_pageSize (Some s) = 10"
    by (cases "s = []") (simp_all add: GET_pageSize_default GET_pageSize_parsed)
  have b: "s \<noteq> [] \<and> parseInt s = Some v \<longrightarrow>
        GET_pageSize (Some s) = (if v = 0 then 10 else clamp_1_100 v)"
    by (simp add: GET_pageSize_parsed)
  have c: "GET_pageSize (Some (Number_toString n)) = (if n = 0 then 10 else clamp_1_100 n)"
    by (simp add: GET_pageSize_parsed[OF toString_nonempty] parseInt_toString)
  have d: "GET_pageSize (Some ''500'') = 100" "GET_pageSize (Some ''100'') = 100"
    by code_simp+
  show ?thesis
    using a b c d GET_pageSize_default GET_pageSize_range[of p] by simp
qed

text \<open>
  The theorem at \<open>pageSize=abc\<close> (no integer to read) and at \<open>pageSize=250px\<close> (the
  integer read is \<open>250\<close>).
\<close>

theorem pageSize_default_or_clamped_witness:
  "parseInt ''abc'' = None \<and> GET_pageSize (Some ''abc'') = 10
   \<and> parseInt ''250px'' = Some 250 \<and> GET_pageSize (Some ''250px'') = 100"
proof -
  have h: "parseInt ''abc'' = None" "parseInt ''250px'' = Some 250" "''250px'' \<noteq> []"
    by code_simp+
  have "GET_pageSize (Some ''abc'') = 10"
    using pageSize_default_or_clamped[of "''abc''"] h(1) by blast
  moreover have "GET_pageSize (Some ''250px'') = (if (250::int) = 0 then 10 else clamp_1_100 250)"
    using pageSize_default_or_clamped[of "''250px''" 250] h(2,3) by blast
  ultimately show ?thesis using h by (simp add: clamp_1_100_def)
qed

section \<open>API key check: proofs\<close>

lemma configured_key_rule:
  assumes "k \<noteq> []"
  shows "validateApiKey_settings (Some k) req
     = ((\<exists>a. authorization req = Some a \<and> startsWith a ''Bearer '' \<and> drop 7 a = k)
        \<or> x_api_key req = Some k)"
    and "validateApiKey_schedule (Some k) req = validateApiKey_settings (Some k) req"
  using assms
  by (auto simp: validateApiKey_settings_def validateApiKey_schedule_def matches_expected_def
      split: option.splits)

lemma settings_status_401_iff:
  "status (GET_settings API_KEY req store) = 401 \<longleftrightarrow> \<not> validateApiKey_settings API_KEY req"
  "status (fst (POST_settings API_KEY req store)) = 401 \<longleftrightarrow> \<not> validateApiKey_settings API_KEY req"
  by (auto simp: GET_settings_def POST_settings_def unauthorized_def Let_def
      split: option.splits json.splits prod.splits if_splits)

text \<open>
  Claim C3 against the code. With no API key configured (\<open>API_KEY\<close> unset, or set to
  the empty string) the settings route rejects every request, whatever its headers,
  with status 401: its \<open>validateApiKey\<close> lacks the guard
  \<open>if (!process.env.API_KEY) return true\<close> that the schedule route has, and the
  schedule route lets the same request through.
\<close>

theorem settings_route_rejects_when_no_key_configured:
  "validateApiKey_settings None req = False
   \<and> validateApiKey_settings (Some []) req = False
   \<and> GET_settings None req store = unauthorized
   \<and> POST_settings None req store = (unauthorized, store)
   \<and> status unauthorized = 401
   \<and> validateApiKey_schedule None req = True
   \<and> validateApiKey_schedule (Some []) req = True"
  by (simp add: validateApiKey_settings_def validateApiKey_schedule_def matches_expected_def
      GET_settings_def POST_settings_def unauthorized_def split: option.splits)

section \<open>Settings POST: proofs\<close>

lemma string_elements_map: "string_elements xs = Some ss \<Longrightarrow> xs = map JString ss"
  by (induction xs arbitrary: ss rule: string_elements.induct) (auto split: option.splits)

lemma timeRegex_test_strings:
  "list_all timeRegex_test (map JString ss) = list_all isValidTime ss"
  by (induction ss) (simp_all add: timeRegex_test_def)

lemma post_accepts_valid_body:
  assumes "validateApiKey_settings API_KEY req" "json_body req = Some body" "valid_settings_body body"
  shows "\<exists>settings. POST_settings API_KEY req store
           = (\<lparr>status = 200, payload = SavedBody settings\<rparr>, store(''default-user'' \<mapsto> settings))
         \<and> get_prop body ''schedule'' = Some (JArray (schedule settings))"
proof -
  from assms(3) obtain e xs d ss where f: "as_boolean (get_prop body ''enabled'') = Some e"
    "as_array (get_prop body ''schedule'') = Some xs"
    "as_string (get_prop body ''lastNotificationDate'') = Some d"
    "string_elements xs = Some ss" "list_all isValidTime ss"
    by (auto simp: valid_settings_body_def split: option.splits)
  have nn: "body \<noteq> JNull" using f(1) by (auto simp: get_prop_def as_boolean_def)
  have arr: "get_prop body ''schedule'' = Some (JArray xs)"
    using f(2) by (auto simp: as_array_def split: option.splits json.splits)
  have "list_all timeRegex_test xs"
    using string_elements_map[OF f(4)] f(5) timeRegex_test_strings by simp
  then show ?thesis
    using assms(1,2) f(1-3) nn arr
    by (intro exI[of _ "\<lparr>enabled = e, schedule = xs, lastNotificationDate = d\<rparr>"])
       (simp add: POST_settings_def getUserId_def Let_def)
qed

lemma post_status_of_valid:
  assumes "validateApiKey_settings API_KEY req" "json_body req = Some body" "valid_settings_body body"
  shows "status (fst (POST_settings API_KEY req store)) = 200"
  using post_accepts_valid_body[OF assms, of store] by auto

lemma post_status_is_200_or_400:
  assumes "validateApiKey_settings API_KEY req"
  shows "status (fst (POST_settings API_KEY req store)) = 200
       \<or> status (fst (POST_settings API_KEY req store)) = 400"
  using assms by (simp add: POST_settings_def Let_def split: option.splits)

lemma post_examples:
  defines "authorized b \<equiv> \<lparr>authorization = None, x_api_key = Some ''secret'', json_body = Some b\<rparr>"
  defines "body_with xs \<equiv> JObject [(''enabled'', JBool True), (''schedule'', JArray xs),
                                   (''lastNotificationDate'', JString [])]"
  shows "status (fst (POST_settings (Some ''secret'') (authorized (body_with [JString ''9:00''])) Map.empty)) = 400"
    and "fst (POST_settings (Some ''secret'') (authorized (body_with [JString ''09:00'', JString ''09:00''])) Map.empty)
       = \<lparr>status = 200, payload = SavedBody \<lparr>enabled = True,
            schedule = [JString ''09:00'', JString ''09:00''], lastNotificationDate = []\<rparr>\<rparr>"
    and "snd (POST_settings (Some ''secret'') (authorized (body_with [JString ''09:00'', JString ''09:00''])) Map.empty)
           ''default-user''
       = Some \<lparr>enabled = True, schedule = [JString ''09:00'', JString ''09:00''],
               lastNotificationDate = []\<rparr>"
  unfolding authorized_def body_with_def by code_simp+

text \<open>
  Claim C4 against the code. An authorized POST whose schedule is \<open>[["09:00"]]\<close>, an
  array holding an array and no string, is accepted with 200 and stored as it is: the
  handler checks the elements with \<open>timeRegex.test\<close> alone, which converts its
  argument to a string first, and the one-element array \<open>["09:00"]\<close> converts to
  \<open>09:00\<close>. The specification's condition rejects this body. With the stored
  settings the schedule route then answers 500, since the stored element has no
  \<open>split\<close>.
\<close>

theorem settings_post_accepts_nested_array:
  "(let body = JObject [(''enabled'', JBool True),
                        (''schedule'', JArray [JArray [JString ''09:00'']]),
                        (''lastNotificationDate'', JString [])];
        req = \<lparr>authorization = None, x_api_key = Some ''secret'', json_body = Some body\<rparr>;
        posted_settings = \<lparr>enabled = True, schedule = [JArray [JString ''09:00'']],
                            lastNotificationDate = []\<rparr>
    in \<not> valid_settings_body body
       \<and> validateApiKey_settings (Some ''secret'') req
       \<and> fst (POST_settings (Some ''secret'') req Map.empty)
           = \<lparr>status = 200, payload = SavedBody posted_settings\<rparr>
       \<and> snd (POST_settings (Some ''secret'') req Map.empty) ''default-user''
           = Some posted_settings
       \<and> map_option status (GET_schedule (Some ''secret'') (fixed_zone 0) 52200000 (Some []) req
                    (snd (POST_settings (Some ''secret'') req Map.empty))) = Some 500)"
  by code_simp

section \<open>Notification click: proofs\<close>

lemma click_equals_never_focuses_for_path_target:
  assumes "list_all (\<lambda>client. url client \<noteq> ''/flashcards'') clientList"
  shows "notificationclick_equals clientList True None = [NotificationClosed, WindowOpened ''/flashcards'']"
proof -
  have u: "urlToOpen None = JString ''/flashcards''"
    by (simp add: urlToOpen_def optional_prop_def)
  have "find (\<lambda>client. JString (url client) = JString ''/flashcards'' \<and> focusable client) clientList = None"
    using assms by (induction clientList) auto
  then show ?thesis by (simp add: notificationclick_equals_def u)
qed

lemma click_focuses_first_match:
  assumes "find (\<lambda>client. str_includes (url client) (ToString (urlToOpen data)) \<and> focusable client)
             clientList = Some client"
  shows "notificationclick_includes clientList openWindowAvailable data
           = [NotificationClosed, ClientFocused client]"
  using assms by (simp add: notificationclick_includes_def)

text \<open>
  Claim C2 against the code. The worker's only client is a window showing the
  flashcards page, at its absolute URL, and the notification carries no URL, so the
  target is \<open>/flashcards\<close>. The listener of the TypeScript worker compares with
  \<open>client.url === urlToOpen\<close>; the URL of a client is absolute, the comparison
  fails and a second window is opened. The listener of \<open>src/unnamed/part_001\<close>, which
  tests \<open>client.url.includes(urlToOpen)\<close>, focuses the open client on the same
  input.
\<close>

theorem click_equals_opens_second_window:
  "notificationclick_equals
      [\<lparr>url = ''https://zenchi.example/flashcards'', focusable = True\<rparr>] True None
     = [NotificationClosed, WindowOpened ''/flashcards'']
   \<and> notificationclick_includes
      [\<lparr>url = ''https://zenchi.example/flashcards'', focusable = True\<rparr>] True None
     = [NotificationClosed, ClientFocused \<lparr>url = ''https://zenchi.example/flashcards'', focusable = True\<rparr>]"
  by code_simp

section \<open>Storage round trip: proofs\<close>

lemma settings_of_to_json: "settings_of_json (settings_to_json s) = Some s"
  by (simp add: settings_of_json_def settings_to_json_def get_prop_def fields_get_def
      as_boolean_def as_array_def as_string_def)



text \<open>
  Claim C6. In a context able to persist (a browser context whose storage accepts the
  read and the write) a settings value written and then read comes back equal, whatever
  its three fields hold. In a context with no window the write changes nothing and the
  read gives the default settings, before and after it.
\<close>

theorem settings_round_trip:
  "(persistence_capable env \<longrightarrow> getNotificationSettings (setNotificationSettings env s) = s)
   \<and> (\<not> hasWindow env \<longrightarrow>
        setNotificationSettings env s = env
        \<and> getNotificationSettings (setNotificationSettings env s) = default_settings
        \<and> getNotificationSettings env = default_settings)
   \<and> default_settings = \<lparr>enabled = False, schedule = [], lastNotificationDate = []\<rparr>"
  by (simp add: persistence_capable_def getNotificationSettings_def setNotificationSettings_def
      settings_of_to_json default_settings_def)

text \<open>
  The theorem in a browser with empty storage and on the server, for the settings
  \<open>{enabled: true, schedule: ["09:00", "20:00"], lastNotificationDate: "2025-01-01"}\<close>.
\<close>

theorem settings_round_trip_witness:
  "persistence_capable \<lparr>hasWindow = True, getItemThrows = False, setItemThrows = False, items = Map.empty\<rparr>
   \<and> getNotificationSettings (setNotificationSettings
         \<lparr>hasWindow = True, getItemThrows = False, setItemThrows = False, items = Map.empty\<rparr>
         \<lparr>enabled = True, schedule = [JString ''09:00'', JString ''20:00''],
          lastNotificationDate = ''2025-01-01''\<rparr>)
       = \<lparr>enabled = True, schedule = [JString ''09:00'', JString ''20:00''],
          lastNotificationDate = ''2025-01-01''\<rparr>
   \<and> \<not> hasWindow \<lparr>hasWindow = False, getItemThrows = False, setItemThrows = False, items = Map.empty\<rparr>
   \<and> getNotificationSettings (setNotificationSettings
         \<lparr>hasWindow = False, getItemThrows = False, setItemThrows = False, items = Map.empty\<rparr>
         \<lparr>enabled = True, schedule = [JString ''09:00'', JString ''20:00''],
          lastNotificationDate = ''2025-01-01''\<rparr>)
       = default_settings"
proof -
  let ?b = "\<lparr>hasWindow = True, getItemThrows = False, setItemThrows = False, items = Map.empty\<rparr>"
  let ?v = "\<lparr>hasWindow = False, getItemThrows = False, setItemThrows = False, items = Map.empty\<rparr>"
  let ?s = "\<lparr>enabled = True, schedule = [JString ''09:00'', JString ''20:00''],
          lastNotificationDate = ''2025-01-01''\<rparr>"
  have c: "persistence_capable ?b" by (simp add: persistence_capable_def)
  have n: "\<not> hasWindow ?v" by simp
  from settings_round_trip[of ?b ?s] c
  have 1: "getNotificationSettings (setNotificationSettings ?b ?s) = ?s" by blast
  from settings_round_trip[of ?v ?s] n
  have 2: "getNotificationSettings (setNotificationSettings ?v ?s) = default_settings" by blast
  show ?thesis using c n 1 2 by blast
qed

section \<open>Review marks: proofs\<close>









section \<open>Cancelling and failed scheduling: proofs\<close>

lemma fold_clearTimeout:
  "fold (\<lambda>entry ts. clearTimeout (snd entry) ts) m ts = filter (\<lambda>t. handle t \<notin> snd ` set m) ts"
proof (induction m arbitrary: ts)
  case Nil
  then show ?case by simp
next
  case (Cons p m)
  have "filter (\<lambda>t. handle t \<notin> snd ` set m) (clearTimeout (snd p) ts)
      = filter (\<lambda>t. handle t \<notin> snd ` set (p # m)) ts"
    by (auto simp: clearTimeout_def intro: filter_cong)
  then show ?case using Cons by simp
qed

lemma cancelNotifications_fields:
  "timers (cancelNotifications env s) = filter (\<lambda>t. handle t \<notin> snd ` set (scheduledTimeouts s)) (timers s)"
  "scheduledTimeouts (cancelNotifications env s) = []"
  "nextHandle (cancelNotifications env s) = nextHandle s"
  "posted (cancelNotifications env s)
     = posted s @ (if windowDefined env \<and> serviceWorker env then [CANCEL_NOTIFICATIONS] else [])"
  "error (cancelNotifications env s) = error s"
  "loading (cancelNotifications env s) = loading s"
  "syncRegistered (cancelNotifications env s) = syncRegistered s"
  by (simp_all add: cancelNotifications_def sendMessageToSW_def fold_clearTimeout)

lemma all_tracked_filter:
  "all_tracked m ts \<Longrightarrow> filter (\<lambda>t. handle t \<notin> snd ` set m) ts = []"
  by (induction ts) (auto simp: all_tracked_def)

lemma cancel_twice:
  "timers (cancelNotifications env (cancelNotifications env s)) = timers (cancelNotifications env s)"
  "scheduledTimeouts (cancelNotifications env (cancelNotifications env s)) = []"
  "error (cancelNotifications env (cancelNotifications env s)) = error s"
  by (simp_all add: cancelNotifications_fields)

lemma cancel_complete_when_tracked:
  assumes "all_tracked (scheduledTimeouts s) (timers s)"
  shows "timers (cancelNotifications env s) = []"
    and "timers (cancelNotifications env (cancelNotifications env s)) = []"
  using assms by (simp_all add: cancelNotifications_fields all_tracked_filter)

lemma permission_step:
  assumes "permission_obtained env"
  shows "\<exists>s1. (if notificationPermission env \<noteq> Granted
                then requestNotificationPermission env s0 else (True, s0)) = (True, s1)
            \<and> scheduledTimeouts s1 = scheduledTimeouts s0 \<and> timers s1 = timers s0
            \<and> nextHandle s1 = nextHandle s0 \<and> posted s1 = posted s0
            \<and> syncRegistered s1 = syncRegistered s0"
  using assms by (auto simp: permission_obtained_def requestNotificationPermission_def)

lemma failed_fields:
  "error (failed m s) = Some m" "loading (failed m s) = False" "timers (failed m s) = timers s"
  "scheduledTimeouts (failed m s) = scheduledTimeouts s" "nextHandle (failed m s) = nextHandle s"
  "posted (failed m s) = posted s" "syncRegistered (failed m s) = syncRegistered s"
  by (simp_all add: failed_def)

lemma scheduleNotifications_fetch_failure:
  assumes p: "permission_obtained env" and e: "enabled settings" "schedule settings \<noteq> []"
    and f: "fetch_failure_message (fetchOutcome env) = Some m"
  shows "\<exists>s1. scheduleNotifications env settings s = failed m (cancelNotifications env s1)
            \<and> scheduledTimeouts s1 = scheduledTimeouts s \<and> timers s1 = timers s
            \<and> nextHandle s1 = nextHandle s \<and> posted s1 = posted s
            \<and> syncRegistered s1 = syncRegistered s"
proof -
  let ?s0 = "s\<lparr>loading := True, error := None\<rparr>"
  from permission_step[OF p, of ?s0] obtain s1 where
    s1: "(if notificationPermission env \<noteq> Granted
          then requestNotificationPermission env ?s0 else (True, ?s0)) = (True, s1)"
    and keep: "scheduledTimeouts s1 = scheduledTimeouts ?s0" "timers s1 = timers ?s0"
      "nextHandle s1 = nextHandle ?s0" "posted s1 = posted ?s0"
      "syncRegistered s1 = syncRegistered ?s0" by blast
  have w: "windowDefined env" "notificationSupported env"
    using p by (simp_all add: permission_obtained_def)
  have nf: "\<And>d. fetchOutcome env \<noteq> Fetched d"
    using f by (auto simp: fetch_failure_message_def)
  have "scheduleNotifications env settings s = failed m (cancelNotifications env s1)"
    unfolding scheduleNotifications_def Let_def
    using w e f nf by (simp only: s1 if_True if_False not_True_eq_False not_False_eq_True
        prod.case simp_thms split: fetch_outcome.splits) (auto split: fetch_outcome.splits)
  then show ?thesis using keep by auto
qed

text \<open>
  What a failed fetch of the preview leaves behind, from any state: with notifications
  enabled and a schedule that is not empty, when the fetch is reached and fails (the
  request fails, the response is not \<open>ok\<close>, or its body does not parse), the call
  ends with the error message surfaced and \<open>loading\<close> off, and it arms nothing of
  its own: no timer handle is allocated, the \<open>scheduledTimeouts\<close> map is empty, the
  only message posted to the worker is the cancellation, and no background sync is
  registered. The timers armed afterwards are those armed before the call that the
  map did not record; there is none when every timer was recorded, as on a fresh page.
\<close>

lemma failed_fetch_effects:
  fixes s :: page_state
  assumes a: "permission_obtained env" "enabled settings" "schedule settings \<noteq> []"
    "fetch_failure_message (fetchOutcome env) = Some m"
  defines "s' \<equiv> scheduleNotifications env settings s"
  shows "error s' = Some m" "\<not> loading s'" "scheduledTimeouts s' = []"
    "nextHandle s' = nextHandle s"
    "timers s' = filter (\<lambda>t. handle t \<notin> snd ` set (scheduledTimeouts s)) (timers s)"
    "posted s' = posted s @ (if serviceWorker env then [CANCEL_NOTIFICATIONS] else [])"
    "syncRegistered s' = syncRegistered s"
    "all_tracked (scheduledTimeouts s) (timers s) \<Longrightarrow> timers s' = []"
proof -
  have w: "windowDefined env" using a(1) by (simp add: permission_obtained_def)
  from scheduleNotifications_fetch_failure[OF a, of s] obtain s1 where
    r: "s' = failed m (cancelNotifications env s1)"
    and keep: "scheduledTimeouts s1 = scheduledTimeouts s" "timers s1 = timers s"
      "nextHandle s1 = nextHandle s" "posted s1 = posted s" "syncRegistered s1 = syncRegistered s"
    unfolding s'_def by blast
  show "error s' = Some m" "\<not> loading s'" "scheduledTimeouts s' = []"
    "nextHandle s' = nextHandle s"
    "timers s' = filter (\<lambda>t. handle t \<notin> snd ` set (scheduledTimeouts s)) (timers s)"
    "posted s' = posted s @ (if serviceWorker env then [CANCEL_NOTIFICATIONS] else [])"
    "syncRegistered s' = syncRegistered s"
    unfolding r using keep w by (simp_all add: failed_fields cancelNotifications_fields)
  then show "all_tracked (scheduledTimeouts s) (timers s) \<Longrightarrow> timers s' = []"
    by (simp add: all_tracked_filter)
qed

section \<open>Recorded timers: an invariant of scheduling\<close>

text \<open>
  Scheduling keeps every armed timer of the page recorded in \<open>scheduledTimeouts\<close>
  as long as the schedule consists of distinct entries of the form \<open>HH:MM\<close>: the
  schedule ids of distinct entries differ, so no \<open>Map.set\<close> replaces a handle.
\<close>

lemma Map_set_fresh: "k \<notin> fst ` set m \<Longrightarrow> Map_set m k v = m @ [(k, v)]"
  by (induction m) auto

lemma all_tracked_snoc:
  "all_tracked m ts \<Longrightarrow> handle t = h \<Longrightarrow> all_tracked (m @ [(k, h)]) (ts @ [t])"
  by (auto simp: all_tracked_def list_all_iff)

lemma scheduleId_entry:
  "length time = 5 \<Longrightarrow> take 5 (scheduleId_of time st) = time"
  by (simp add: scheduleId_of_def)

lemma isValidTime_length: "isValidTime time \<Longrightarrow> length time = 5"
  by (auto simp: isValidTime_def split: list.splits)

lemma scheduleNotificationForTime_fields:
  "timers (scheduleNotificationForTime env time bt bu s)
     = timers s @ [\<lparr>handle = nextHandle s,
          delay = (case scheduledTime_for (timeZone env) (clock env) time of None \<Rightarrow> None
                   | Some t \<Rightarrow> Some (t - clock env)),
          title = ''Review: '' @ bt, target = bu\<rparr>]"
  "scheduledTimeouts (scheduleNotificationForTime env time bt bu s)
     = Map_set (scheduledTimeouts s) (scheduleId_of time (scheduledTime_for (timeZone env) (clock env) time))
         (nextHandle s)"
  "nextHandle (scheduleNotificationForTime env time bt bu s) = Suc (nextHandle s)"
  by (simp_all add: scheduleNotificationForTime_def sendMessageToSW_def Let_def)

lemma schedule_step_tracked:
  assumes "all_tracked (scheduledTimeouts s) (timers s)" "length time = 5"
    "time \<notin> take 5 ` fst ` set (scheduledTimeouts s)"
  shows "all_tracked (scheduledTimeouts (scheduleNotificationForTime env time bt bu s))
           (timers (scheduleNotificationForTime env time bt bu s))"
    and "take 5 ` fst ` set (scheduledTimeouts (scheduleNotificationForTime env time bt bu s))
           = insert time (take 5 ` fst ` set (scheduledTimeouts s))"
proof -
  let ?k = "scheduleId_of time (scheduledTime_for (timeZone env) (clock env) time)"
  have k: "take 5 ?k = time" using assms(2) by (rule scheduleId_entry)
  have fresh: "?k \<notin> fst ` set (scheduledTimeouts s)"
    using assms(3) k by (metis imageI)
  have m: "scheduledTimeouts (scheduleNotificationForTime env time bt bu s)
         = scheduledTimeouts s @ [(?k, nextHandle s)]"
    by (simp add: scheduleNotificationForTime_fields Map_set_fresh[OF fresh])
  show "all_tracked (scheduledTimeouts (scheduleNotificationForTime env time bt bu s))
           (timers (scheduleNotificationForTime env time bt bu s))"
    unfolding m scheduleNotificationForTime_fields(1)
    by (rule all_tracked_snoc[OF assms(1)]) simp
  show "take 5 ` fst ` set (scheduledTimeouts (scheduleNotificationForTime env time bt bu s))
           = insert time (take 5 ` fst ` set (scheduledTimeouts s))"
    unfolding m using k by (simp add: image_Un)
qed

lemma schedule_loop_tracked:
  assumes "list_all isValidTime ts" "distinct ts"
    "all_tracked (scheduledTimeouts s) (timers s)"
    "set ts \<inter> take 5 ` fst ` set (scheduledTimeouts s) = {}"
  shows "\<exists>s'. schedule_loop env bt bu (map JString ts) s = (None, s')
            \<and> all_tracked (scheduledTimeouts s') (timers s')"
  using assms
proof (induction ts arbitrary: s)
  case Nil
  then show ?case by simp
next
  case (Cons t ts)
  let ?s1 = "scheduleNotificationForTime env t bt bu s"
  have len: "length t = 5" using Cons.prems(1) by (simp add: isValidTime_length)
  have nt: "t \<notin> take 5 ` fst ` set (scheduledTimeouts s)" using Cons.prems(4) by auto
  note st = schedule_step_tracked[OF Cons.prems(3) len nt, of env bt bu]
  have d: "set ts \<inter> take 5 ` fst ` set (scheduledTimeouts ?s1) = {}"
    unfolding st(2) using Cons.prems(2,4) by auto
  from Cons.IH[OF _ _ st(1) d] Cons.prems(1,2)
  show ?case by simp
qed

lemma tracked_other_fields:
  "all_tracked (scheduledTimeouts (failed m s)) (timers (failed m s))
     = all_tracked (scheduledTimeouts s) (timers s)"
  "all_tracked (scheduledTimeouts (registerBackgroundSync env s)) (timers (registerBackgroundSync env s))
     = all_tracked (scheduledTimeouts s) (timers s)"
  "all_tracked (scheduledTimeouts (snd (requestNotificationPermission env s)))
       (timers (snd (requestNotificationPermission env s)))
     = all_tracked (scheduledTimeouts s) (timers s)"
  by (auto simp: failed_def registerBackgroundSync_def requestNotificationPermission_def
      split: request_outcome.splits)

lemma scheduleNotifications_keeps_tracked:
  assumes tr: "all_tracked (scheduledTimeouts s) (timers s)"
    and v: "schedule settings = map JString ts" "list_all isValidTime ts" "distinct ts"
  shows "all_tracked (scheduledTimeouts (scheduleNotifications env settings s))
           (timers (scheduleNotifications env settings s))"
proof -
  let ?s0 = "s\<lparr>loading := True, error := None\<rparr>"
  let ?p = "if notificationPermission env \<noteq> Granted
            then requestNotificationPermission env ?s0 else (True, ?s0)"
  obtain granted s1 where p: "?p = (granted, s1)" by (cases ?p)
  have tr1: "all_tracked (scheduledTimeouts s1) (timers s1)"
  proof (cases "notificationPermission env \<noteq> Granted")
    case True
    then have "s1 = snd (requestNotificationPermission env ?s0)" using p by simp
    then show ?thesis using tr by (simp add: tracked_other_fields)
  next
    case False
    then show ?thesis using p tr by auto
  qed
  let ?s2 = "cancelNotifications env s1"
  have c: "scheduledTimeouts ?s2 = []" "timers ?s2 = []"
    using tr1 by (simp_all add: cancelNotifications_fields all_tracked_filter)
  have tr2: "all_tracked (scheduledTimeouts ?s2) (timers ?s2)"
    by (simp add: c all_tracked_def)
  have d: "set ts \<inter> take 5 ` fst ` set (scheduledTimeouts ?s2) = {}" by (simp add: c)
  have loop: "\<exists>s'. schedule_loop env bt bu (schedule settings) ?s2 = (None, s')
            \<and> all_tracked (scheduledTimeouts s') (timers s')" for bt bu
    unfolding v(1) by (rule schedule_loop_tracked[OF v(2,3) tr2 d])
  show ?thesis
  proof (cases "windowDefined env")
    case False
    then show ?thesis using tr by (simp add: scheduleNotifications_def)
  next
    case w: True
    show ?thesis
    proof (cases "notificationSupported env")
      case False
      then show ?thesis using w tr
        by (simp add: scheduleNotifications_def Let_def tracked_other_fields)
    next
      case n: True
      show ?thesis
      proof (cases granted)
        case False
        then show ?thesis using w n p tr1
          by (simp add: scheduleNotifications_def Let_def tracked_other_fields)
      next
        case g: True
        show ?thesis
        proof (cases "enabled settings \<and> schedule settings \<noteq> []")
          case False
          then show ?thesis using w n p g tr2
            by (simp add: scheduleNotifications_def Let_def all_tracked_def c)
        next
          case e: True
          show ?thesis
          proof (cases "fetchOutcome env")
            case (Fetched scheduleData)
            show ?thesis
            proof (cases "scheduleData = JNull")
              case True
              then show ?thesis using w n p g e tr2 Fetched
                by (simp add: scheduleNotifications_def Let_def tracked_other_fields)
            next
              case False
              let ?bp = "get_prop scheduleData ''bookmarkPreview''"
              let ?bt = "(case optional_prop ?bp ''name'' of None \<Rightarrow> ''Your bookmark''
                          | Some n \<Rightarrow> if truthy n then ToString n else ''Your bookmark'')"
              let ?bu = "(case optional_prop ?bp ''url'' of None \<Rightarrow> JString []
                          | Some u \<Rightarrow> if truthy u then u else JString [])"
              from loop[of ?bt ?bu] obtain s' where
                l: "schedule_loop env ?bt ?bu (schedule settings) ?s2 = (None, s')"
                and tr': "all_tracked (scheduledTimeouts s') (timers s')" by blast
              have "scheduleNotifications env settings s
                  = (registerBackgroundSync env s')\<lparr>loading := False\<rparr>"
                using w n p g e Fetched False l
                by (simp add: scheduleNotifications_def Let_def)
              then show ?thesis using tr' by (simp add: tracked_other_fields)
            qed
          next
            case (NetworkFailure x)
            then show ?thesis using w n p g e tr2
              by (cases x) (simp_all add: scheduleNotifications_def Let_def tracked_other_fields
                  fetch_failure_message_def)
          next
            case HttpNotOk
            then show ?thesis using w n p g e tr2
              by (simp add: scheduleNotifications_def Let_def tracked_other_fields
                  fetch_failure_message_def)
          next
            case (BodyUnreadable x)
            then show ?thesis using w n p g e tr2
              by (simp add: scheduleNotifications_def Let_def tracked_other_fields
                  fetch_failure_message_def)
          qed
        qed
      qed
    qed
  qed
qed

lemma cancel_complete_after_schedule_without_repeats:
  assumes "all_tracked (scheduledTimeouts s) (timers s)"
    and "schedule settings = map JString ts" "list_all isValidTime ts" "distinct ts"
  shows "timers (cancelNotifications env' (scheduleNotifications env settings s)) = []"
  using scheduleNotifications_keeps_tracked[OF assms] by (rule cancel_complete_when_tracked(1))

section \<open>Completeness of cancelling: proofs\<close>

lemma worker_cancel_fields:
  "scheduledNotifications (on_message CANCEL_NOTIFICATIONS w) = []"
  "workerTimers (on_message CANCEL_NOTIFICATIONS w)
     = filter (\<lambda>t. handle t \<notin> snd ` set (scheduledNotifications w)) (workerTimers w)"
  "workerTimers (on_message CANCEL_NOTIFICATIONS (on_message CANCEL_NOTIFICATIONS w))
     = workerTimers (on_message CANCEL_NOTIFICATIONS w)"
  by (simp_all add: on_message_def fold_clearTimeout)

lemma worker_cancel_complete_when_tracked:
  "all_tracked (scheduledNotifications w) (workerTimers w)
     \<Longrightarrow> workerTimers (on_message CANCEL_NOTIFICATIONS w) = []"
  by (simp add: worker_cancel_fields all_tracked_filter)

lemma nine_at_1430:
  "scheduledTime_for (fixed_zone 0) 52200000 ''09:00'' = Some 118800000"
  "scheduleId_of ''09:00'' (Some 118800000) = ''09:00-118800000''"
proof -
  have "parse_time ''09:00'' = Some (9, 0)" by code_simp
  then show "scheduledTime_for (fixed_zone 0) 52200000 ''09:00'' = Some 118800000"
    by (simp add: scheduledTime_for_def setHours_def addDay_def TimeClip_def UTC_def
        LocalTime_def fixed_zone_def msPerDay_def msPerHour_def msPerMinute_def)
  have "Number_toString 118800000 = ''118800000''"
    by (simp add: Number_toString_def Number_toString_nat.simps digit_chars)
  then show "scheduleId_of ''09:00'' (Some 118800000) = ''09:00-118800000''"
    by (simp add: scheduleId_of_def)
qed

text \<open>
  Claim C7 against the code. A page with permission granted schedules the settings
  \<open>{enabled: true, schedule: ["09:00", "09:00"]}\<close> at 14:30 (in a zone on UTC); the
  fetch of the preview succeeds. Both entries get the schedule id \<open>09:00-118800000\<close>, so the second
  \<open>scheduledTimeouts.set\<close> replaces the handle of the first timer, and
  \<open>cancelNotifications\<close>, once or twice, clears the second timer only: the timer with
  handle \<open>0\<close> stays armed though the map is empty. The worker of
  \<open>src/unnamed/part_001\<close>, fed the messages this page posted, keys its map by
  \<open>time\<close> and is left with its first timer armed in the same way.
\<close>

theorem cancel_misses_timer_of_repeated_entry:
  "(let env = \<lparr>windowDefined = True, notificationSupported = True,
                notificationPermission = Granted, requestOutcome = Resolved Granted,
                serviceWorker = True, syncSupported = True,
                fetchOutcome = Fetched (JObject [(''nextNotificationTime'', JNull),
                                                 (''bookmarkPreview'', JNull)]),
                clock = 52200000, timeZone = fixed_zone 0\<rparr>;
        settings = \<lparr>enabled = True, schedule = [JString ''09:00'', JString ''09:00''],
                     lastNotificationDate = []\<rparr>;
        scheduled = scheduleNotifications env settings initial_page_state;
        cancelled = cancelNotifications env scheduled;
        cancelled_twice = cancelNotifications env cancelled;
        worker = fold on_message (posted cancelled) initial_worker_state
    in error scheduled = None
       \<and> map handle (timers scheduled) = [0, 1]
       \<and> scheduledTimeouts scheduled = [(''09:00-118800000'', 1)]
       \<and> map handle (timers cancelled) = [0]
       \<and> scheduledTimeouts cancelled = []
       \<and> map handle (timers cancelled_twice) = [0]
       \<and> posted cancelled = [CANCEL_NOTIFICATIONS,
                               SCHEDULE_NOTIFICATION ''09:00'' (Some 66600000),
                               SCHEDULE_NOTIFICATION ''09:00'' (Some 66600000),
                               CANCEL_NOTIFICATIONS]
       \<and> map handle (workerTimers worker) = [0]
       \<and> scheduledNotifications worker = [])"
  by (simp add: Let_def scheduleNotifications_def cancelNotifications_def sendMessageToSW_def
      scheduleNotificationForTime_def registerBackgroundSync_def initial_page_state_def
      initial_worker_state_def on_message_def clearTimeout_def optional_prop_def get_prop_def
      fields_get_def nine_at_1430)

section \<open>A failed fetch after a schedule with a repeated entry\<close>

text \<open>
  Claim C5 against the code. A page with permission granted schedules the settings
  \<open>{enabled: true, schedule: ["09:00", "09:00"]}\<close> at 14:30 and the fetch of the
  preview succeeds: two timers are armed and the map records the second only (the
  defect of claim C7). The page then schedules the settings
  \<open>{enabled: true, schedule: ["20:00"]}\<close> and this time the fetch fails. The call
  surfaces the error and arms no timer of its own, but its
  \<open>cancelNotifications()\<close>, commented \<open>Clear existing scheduled notifications\<close>,
  clears only what the map records: the timer with handle \<open>0\<close> is still armed after
  the failed call, with an empty map.
\<close>

theorem failed_fetch_leaves_unrecorded_timer_armed:
  "(let env = \<lparr>windowDefined = True, notificationSupported = True,
                notificationPermission = Granted, requestOutcome = Resolved Granted,
                serviceWorker = True, syncSupported = True,
                fetchOutcome = Fetched (JObject [(''nextNotificationTime'', JNull),
                                                 (''bookmarkPreview'', JNull)]),
                clock = 52200000, timeZone = fixed_zone 0\<rparr>;
        offline = env\<lparr>fetchOutcome := NetworkFailure (Some ''Failed to fetch'')\<rparr>;
        repeated = \<lparr>enabled = True, schedule = [JString ''09:00'', JString ''09:00''],
                     lastNotificationDate = []\<rparr>;
        evening = \<lparr>enabled = True, schedule = [JString ''20:00''], lastNotificationDate = []\<rparr>;
        scheduled = scheduleNotifications env repeated initial_page_state;
        failed_call = scheduleNotifications offline evening scheduled
    in error scheduled = None
       \<and> map handle (timers scheduled) = [0, 1]
       \<and> scheduledTimeouts scheduled = [(''09:00-118800000'', 1)]
       \<and> error failed_call = Some ''Failed to fetch''
       \<and> \<not> loading failed_call
       \<and> scheduledTimeouts failed_call = []
       \<and> nextHandle failed_call = nextHandle scheduled
       \<and> map handle (timers failed_call) = [0])"
proof -
  let ?env = "\<lparr>windowDefined = True, notificationSupported = True,
                notificationPermission = Granted, requestOutcome = Resolved Granted,
                serviceWorker = True, syncSupported = True,
                fetchOutcome = Fetched (JObject [(''nextNotificationTime'', JNull),
                                                 (''bookmarkPreview'', JNull)]),
                clock = 52200000, timeZone = fixed_zone 0\<rparr>"
  let ?repeated = "\<lparr>enabled = True, schedule = [JString ''09:00'', JString ''09:00''],
                     lastNotificationDate = []\<rparr>"
  let ?evening = "\<lparr>enabled = True, schedule = [JString ''20:00''], lastNotificationDate = []\<rparr>"
  let ?t = "\<lambda>h. \<lparr>handle = h, delay = Some 66600000, title = ''Review: Your bookmark'',
                   target = JString []\<rparr>"
  let ?scheduled = "\<lparr>scheduledTimeouts = [(''09:00-118800000'', 1)], timers = [?t 0, ?t 1],
       nextHandle = 2,
       posted = [CANCEL_NOTIFICATIONS, SCHEDULE_NOTIFICATION ''09:00'' (Some 66600000),
                 SCHEDULE_NOTIFICATION ''09:00'' (Some 66600000)],
       permission = Default, loading = False, error = None, syncRegistered = True\<rparr>"
  have s: "scheduleNotifications ?env ?repeated initial_page_state = ?scheduled"
    by (simp add: Let_def scheduleNotifications_def cancelNotifications_def sendMessageToSW_def
        scheduleNotificationForTime_def registerBackgroundSync_def initial_page_state_def
        optional_prop_def get_prop_def fields_get_def nine_at_1430)
  have f: "scheduleNotifications (?env\<lparr>fetchOutcome := NetworkFailure (Some ''Failed to fetch'')\<rparr>)
             ?evening ?scheduled
         = ?scheduled\<lparr>scheduledTimeouts := [], timers := [?t 0],
              posted := posted ?scheduled @ [CANCEL_NOTIFICATIONS],
              error := Some ''Failed to fetch''\<rparr>"
    by (simp add: Let_def scheduleNotifications_def cancelNotifications_def sendMessageToSW_def
        clearTimeout_def failed_def fetch_failure_message_def)
  show ?thesis
    unfolding Let_def s f by simp
qed

section \<open>Network-first strategy: proofs\<close>

lemma api_route_url_includes:
  assumes "is_api_route request"
  shows "str_includes (request_url request) ''/api/''"
proof -
  from assms obtain zs where "pathname request = ''/api/'' @ zs"
    unfolding is_api_route_def startsWith_def prefix_def by blast
  then have "request_url request = origin request @ ''/api/'' @ (zs @ search request)"
    by (simp add: request_url_def)
  then show ?thesis
    unfolding str_includes_def sublist_def by blast
qed

lemma find_first_hit:
  "k \<in> set ns \<Longrightarrow> P k \<Longrightarrow> list_all (\<lambda>n. \<not> P n) (takeWhile (\<lambda>n. n \<noteq> k) ns)
     \<Longrightarrow> find P ns = Some k"
  by (induction ns) (auto split: if_splits)

lemma takeWhile_absent: "k \<notin> set ns \<Longrightarrow> takeWhile (\<lambda>n. n \<noteq> k) (ns @ [k]) = takeWhile (\<lambda>n. n \<noteq> k) ns"
  by (induction ns) auto

lemma find_after_filter:
  "P x \<Longrightarrow> find P (filter (\<lambda>y. \<not> P y) xs @ [x]) = Some x"
  by (induction xs) auto

text \<open>
  A request and response that \<open>cache.put\<close> accepts are stored, and the cache then
  answers the request with that response; what it refuses leaves the entries as
  they were.
\<close>

lemma put_then_match:
  assumes "put_accepts request r"
  shows "cache_match (entriesOf (cache_put caches cacheName request r) cacheName) request = Some r"
proof -
  have m: "request_matches request (request, r)"
    using assms by (simp add: request_matches_def put_accepts_def list_all_iff)
  have g: "http_method request = ''GET''" using assms by (simp add: put_accepts_def)
  have "entriesOf (cache_put caches cacheName request r) cacheName
      = filter (\<lambda>item. \<not> request_matches request item) (entriesOf caches cacheName) @ [(request, r)]"
    using assms by (simp add: cache_put_def)
  then show ?thesis
    using g find_after_filter[of "request_matches request" "(request, r)", OF m]
    by (simp add: cache_match_def)
qed

lemma put_refused:
  assumes "\<not> put_accepts request r"
  shows "entriesOf (cache_put caches cacheName request r) = entriesOf caches"
  using assms by (simp add: cache_put_def)

lemma put_other_cache:
  "n \<noteq> cacheName \<Longrightarrow> entriesOf (cache_put caches cacheName request r) n = entriesOf caches n"
  by (simp add: cache_put_def)

lemma caches_match_after_put:
  assumes a: "put_accepts request r"
    and e: "list_all (\<lambda>n. cache_match (entriesOf caches n) request = None)
             (takeWhile (\<lambda>n. n \<noteq> cacheName) (cacheNames caches))"
  shows "caches_match (cache_put caches cacheName request r) request = Some r"
proof -
  let ?c = "cache_put caches cacheName request r"
  let ?P = "\<lambda>n. cache_match (entriesOf ?c n) request \<noteq> None"
  have hit: "cache_match (entriesOf ?c cacheName) request = Some r" by (rule put_then_match[OF a])
  have mem: "cacheName \<in> set (cacheNames ?c)" by (simp add: cache_put_def)
  have tw: "takeWhile (\<lambda>n. n \<noteq> cacheName) (cacheNames ?c)
          = takeWhile (\<lambda>n. n \<noteq> cacheName) (cacheNames caches)"
    by (simp add: cache_put_def takeWhile_absent)
  have "list_all (\<lambda>n. \<not> ?P n) (takeWhile (\<lambda>n. n \<noteq> cacheName) (cacheNames caches))"
  proof -
    have "\<forall>n \<in> set (takeWhile (\<lambda>n. n \<noteq> cacheName) (cacheNames caches)).
            n \<noteq> cacheName \<and> cache_match (entriesOf caches n) request = None"
      using e by (auto simp: list_all_iff dest: set_takeWhileD)
    then show ?thesis by (simp add: list_all_iff put_other_cache)
  qed
  then have "find ?P (cacheNames ?c) = Some cacheName"
    using mem tw hit by (intro find_first_hit) simp_all
  then show ?thesis by (simp add: caches_match_def hit)
qed

lemma no_match_for_other_methods:
  "http_method request \<noteq> ''GET'' \<Longrightarrow> caches_match caches request = None"
  by (simp add: caches_match_def cache_match_def split: option.splits)

text \<open>
  The three steps of the strategy, for a request the listener handles network-first.
  A response from the network is returned, and it is stored when \<open>cache.put\<close>
  accepts it (a \<open>GET\<close> request, a status other than 206, no \<open>Vary: *\<close>); then, as
  long as no cache created earlier answers the request, it is the response returned
  when the network fails next. When the network fails, a cached response is returned
  if cache storage has one for the request (it has none for a request that is not a
  \<open>GET\<close>), and otherwise a placeholder with status 503: the JSON error body when the
  request URL contains \<open>/api/\<close>, which the URL of every API route does, and the
  plain text \<open>Offline\<close> otherwise.
\<close>

lemma network_first_steps:
  assumes s: "strategy_of location_origin request = Some (NetworkFirst, cacheName)"
  shows "on_fetch location_origin (Some r) request caches
        = (Responded r, cache_put caches cacheName request r)"
    and "put_accepts request r \<Longrightarrow>
          list_all (\<lambda>n. cache_match (entriesOf caches n) request = None)
            (takeWhile (\<lambda>n. n \<noteq> cacheName) (cacheNames caches)) \<Longrightarrow>
          on_fetch location_origin None request (cache_put caches cacheName request r)
            = (Responded r, cache_put caches cacheName request r)"
    and "caches_match caches request = Some c \<Longrightarrow>
            on_fetch location_origin None request caches = (Responded c, caches)"
    and "caches_match caches request = None \<Longrightarrow>
            on_fetch location_origin None request caches
              = (Responded (if str_includes (request_url request) ''/api/''
                            then offline_json else offline_text), caches)"
    and "statusCode offline_json = 503" "statusCode offline_text = 503"
  by (simp_all add: on_fetch_def s networkFirstStrategy_def caches_match_after_put
      offline_json_def offline_text_def)

text \<open>
  Claim C8 against the code. The page \<open>/docs/api/intro\<close> is no API route: the
  listener's own test, \<open>url.pathname.startsWith('/api/')\<close>, is false for it, and the
  listener handles it network-first with the page cache. With the network down and
  nothing cached, the answer is nevertheless the JSON error body meant for API routes
  and not the plain response meant for pages, because the strategy decides with
  \<open>request.url.includes('/api/')\<close>, which is true of any URL with \<open>/api/\<close>
  somewhere in it.
\<close>

theorem page_with_api_in_path_gets_json_placeholder:
  "(let request = \<lparr>http_method = ''GET'', origin = ''https://zenchi.example'',
                    pathname = ''/docs/api/intro'', search = [],
                    headers = [(''accept'', ''text/html'')]\<rparr>
    in \<not> is_api_route request
       \<and> strategy_of ''https://zenchi.example'' request = Some (NetworkFirst, CACHE_NAME)
       \<and> caches_match no_caches request = None
       \<and> fst (on_fetch ''https://zenchi.example'' None request no_caches)
            = Responded offline_json
       \<and> contentType offline_json = ''application/json''
       \<and> offline_json \<noteq> offline_text)"
  by code_simp

end
